theory Spec2Isabelle
  imports Main "HOL-Library.Word" "HOL-Library.Sublist" "HOL-Library.FSet"
begin

section \<open>The savestate coordinator (src/program/SaveState.cpp)\<close>

subsection \<open>Data\<close>

text \<open>
  The headers of the coordinator (SharedConfig.h, Context.h, messages.h, SaveState.h,
  MovieFile.h, sockethelpers.h) are not among the sources. Their types are declared here
  as far as SaveState.cpp uses them: an enum is a datatype with the enumerators the code
  names, a struct is a record with the fields the code reads or writes.
\<close>

datatype RecordingMode = NO_RECORDING | RECORDING_WRITE | RECORDING_READ

text \<open>
  \<open>ss_ram\<close> is the test \<^verbatim>\<open>savestate_settings & SharedConfig::SS_RAM\<close> and \<open>osd_messages\<close>
  the test \<^verbatim>\<open>osd & SharedConfig::OSD_MESSAGES\<close>: the values of the two masks are not in
  the sources, and the code uses each bit field only through that one test.
\<close>

record SharedConfig =
  recording :: RecordingMode
  ss_ram :: bool
  osd_messages :: bool
  movie_framecount :: "64 word"
  initial_time_sec :: "64 word"
  initial_time_nsec :: "64 word"

record Config =
  savestatedir :: string
  sc :: SharedConfig

text \<open>
  The frame count and the two clock fields are read from the channel as \<^verbatim>\<open>uint64_t\<close>;
  the movie time in nanoseconds is compared with zero, so it is read as a signed 64 bit
  value. The rerecord counter is incremented with \<^verbatim>\<open>++\<close>; its declaration is not in the
  sources and it is taken as an \<^verbatim>\<open>unsigned int\<close> of 32 bits, so the increment of the largest
  value gives 0.
\<close>

record Context =
  config :: Config
  gamename :: string
  framecount :: "64 word"
  current_time_sec :: "64 word"
  current_time_nsec :: "64 word"
  movie_time_sec :: "64 word"
  movie_time_nsec :: "64 word"
  rerecord_count :: "32 word"

text \<open>One frame of recorded input, as the movie file stores it.\<close>

type_synonym AllInputs = string

record MovieFile =
  input_list :: "AllInputs list"
  modifiedSinceLastStateLoad :: bool

text \<open>
  A savestate slot. The field \<^verbatim>\<open>id\<close> is \<open>slot_id\<close> and the field \<^verbatim>\<open>framecount\<close> is
  \<open>state_framecount\<close> here (\<open>id\<close> is the identity function of HOL, \<open>framecount\<close> the
  field of \<open>Context\<close>).
\<close>

record SaveState =
  slot_id :: int
  is_backtrack :: bool
  state_framecount :: "64 word"
  path :: string
  pagemap_path :: string
  pages_path :: string
  movie_path :: string
  saving_msg :: string
  no_state_msg :: string
  loading_msg :: string
  loaded_msg :: string

text \<open>The message tags the code names; any other tag the peer sends is \<open>MSG_OTHER\<close>.\<close>

datatype message =
    MSGN_SAVESTATE_INDEX
  | MSGN_SAVESTATE_PATH
  | MSGN_OSD_MSG
  | MSGN_SAVESTATE
  | MSGN_LOADSTATE
  | MSGN_CONFIG
  | MSGN_EXPOSE
  | MSGB_SAVING_SUCCEEDED
  | MSGB_LOADING_SUCCEEDED
  | MSGB_FRAMECOUNT_TIME
  | MSG_OTHER int

text \<open>What a call returns: the literal 0, one of the error codes, or a message tag.\<close>

datatype retcode =
    RET_0
  | ENOSTATE
  | ENOSTATEMOVIEPREFIX
  | ENOMOVIE
  | EINPUTMISMATCH
  | ENOLOAD
  | RET_MSG message

subsection \<open>The world the coordinator acts on\<close>

text \<open>
  The coordinator reads and writes files, sends on the channel to the game and receives
  from it. The world holds the disk, what the game will send, and the trace of every
  effect in the order the code performs it.
\<close>

datatype file_content = Raw | MovieData "AllInputs list" "64 word"

datatype packet = Message message | Data64 "64 word"

datatype event =
    SendMessage message
  | SendData_int int
  | SendData_config SharedConfig
  | SendString string
  | Access string
  | LoadInputs string
  | SaveMovie string "64 word" "AllInputs list"
  | CreateFile string
  | ReceiveMessage message
  | ReceiveData "64 word"

record world =
  disk :: "string \<rightharpoonup> file_content"
  inbox :: "packet list"
  trace :: "event list"

definition emit :: "event \<Rightarrow> world \<Rightarrow> world" where
  "emit e w = w\<lparr>trace := trace w @ [e]\<rparr>"

definition sendMessage :: "message \<Rightarrow> world \<Rightarrow> world" where
  "sendMessage m w = emit (SendMessage m) w"

definition sendData_int :: "int \<Rightarrow> world \<Rightarrow> world" where
  "sendData_int i w = emit (SendData_int i) w"

definition sendData_config :: "SharedConfig \<Rightarrow> world \<Rightarrow> world" where
  "sendData_config c w = emit (SendData_config c) w"

definition sendString :: "string \<Rightarrow> world \<Rightarrow> world" where
  "sendString s w = emit (SendString s) w"

text \<open>
  The channel blocks until the peer has sent what is read: a read that finds nothing of
  the kind it waits for is \<open>None\<close>, and the world stays as it was when the wait began.
\<close>

definition receiveMessage :: "world \<Rightarrow> message option \<times> world" where
  "receiveMessage w =
     (case inbox w of
        Message m # rest \<Rightarrow> (Some m, emit (ReceiveMessage m) (w\<lparr>inbox := rest\<rparr>))
      | _ \<Rightarrow> (None, w))"

definition receiveData :: "world \<Rightarrow> 64 word option \<times> world" where
  "receiveData w =
     (case inbox w of
        Data64 d # rest \<Rightarrow> (Some d, emit (ReceiveData d) (w\<lparr>inbox := rest\<rparr>))
      | _ \<Rightarrow> (None, w))"

text \<open>\<^verbatim>\<open>access(p, F_OK) == 0\<close>: the file exists.\<close>

definition access_ok :: "string \<Rightarrow> world \<Rightarrow> bool \<times> world" where
  "access_ok p w = (disk w p \<noteq> None, emit (Access p) w)"

text \<open>\<^verbatim>\<open>std::ofstream o(p); o.close();\<close> leaves an empty file at \<open>p\<close>.\<close>

definition create_empty :: "string \<Rightarrow> world \<Rightarrow> world" where
  "create_empty p w = emit (CreateFile p) (w\<lparr>disk := (disk w)(p \<mapsto> Raw)\<rparr>)"

subsection \<open>The movie (MovieFile.cpp is not among the sources)\<close>

text \<open>
  Modelled from the spec: \<^verbatim>\<open>MovieFile::MovieFile(context)\<close>, a movie with no recorded
  frame and no pending modification.
\<close>

definition new_movie :: MovieFile where
  "new_movie = \<lparr>input_list = [], modifiedSinceLastStateLoad = False\<rparr>"

text \<open>
  Modelled from the spec: \<^verbatim>\<open>MovieFile::loadInputs(path)\<close>. It reloads the input frames of the
  movie from the file at \<open>path\<close> and returns 0; a path that holds no movie cannot be loaded,
  the status is negative and the movie keeps its frames. The modification flag is not
  touched: the spec describes it as set by edits and cleared by the post-load.
\<close>

definition loadInputs :: "string \<Rightarrow> MovieFile \<Rightarrow> world \<Rightarrow> int \<times> MovieFile \<times> world" where
  "loadInputs p m w =
     (case disk w p of
        Some (MovieData frames n) \<Rightarrow> (0, m\<lparr>input_list := frames\<rparr>, emit (LoadInputs p) w)
      | _ \<Rightarrow> (- 1, m, emit (LoadInputs p) w))"

text \<open>
  Modelled from the spec: \<^verbatim>\<open>MovieFile::saveMovie(path, framecount)\<close>, "the current movie is
  persisted to a savestate-scoped movie file stamped with the frame count at save time".
\<close>

definition saveMovie :: "string \<Rightarrow> 64 word \<Rightarrow> MovieFile \<Rightarrow> world \<Rightarrow> world" where
  "saveMovie p n m w =
     emit (SaveMovie p n (input_list m)) (w\<lparr>disk := (disk w)(p \<mapsto> MovieData (input_list m) n)\<rparr>)"

text \<open>
  Modelled from the spec: \<^verbatim>\<open>MovieFile::isPrefix(movie)\<close>. The comments of SaveState.cpp fix
  which movie is which: \<^verbatim>\<open>a.isPrefix(b)\<close> asks whether \<open>b\<close> is a prefix of \<open>a\<close> ("Checking
  if the savestate movie is a prefix of our movie" for \<^verbatim>\<open>movie.isPrefix(savedmovie)\<close>). The
  relation is the spec's: "movie A is a prefix of movie B iff every recorded input frame
  of A up to A's length equals the corresponding frame of B".
\<close>

definition isPrefix :: "MovieFile \<Rightarrow> MovieFile \<Rightarrow> bool" where
  "isPrefix this other = prefix (input_list other) (input_list this)"

text \<open>
  Modelled from the spec: \<^verbatim>\<open>MovieFile::isPrefix(movie, frame)\<close>, "A is a prefix of B up to N
  iff for every frame index in [0, min(N, len(A), len(B))) the two sequences' recorded
  input state is bit-for-bit equal", with \<open>other\<close> as A and \<open>this\<close> as B ("Checking if our
  movie is a prefix of the savestate movie" for \<^verbatim>\<open>savedmovie.isPrefix(movie, framecount)\<close>).
\<close>

definition isPrefix_upto :: "MovieFile \<Rightarrow> MovieFile \<Rightarrow> 64 word \<Rightarrow> bool" where
  "isPrefix_upto this other n =
     (let k = min (unat n) (min (length (input_list other)) (length (input_list this)))
      in take k (input_list other) = take k (input_list this))"

subsection \<open>Paths and messages of a slot\<close>

text \<open>\<^verbatim>\<open>std::to_string\<close> of an \<^verbatim>\<open>int\<close>: the decimal digits, with a minus sign below zero.\<close>

definition digit_char :: "nat \<Rightarrow> char" where
  "digit_char d = ''0123456789'' ! d"

function string_of_nat :: "nat \<Rightarrow> string" where
  "string_of_nat n =
     (if n < 10 then [digit_char n] else string_of_nat (n div 10) @ [digit_char (n mod 10)])"
  by pat_completeness auto
termination
  by (relation "measure (\<lambda>n. n)") auto

declare string_of_nat.simps [simp del]

definition to_string :: "int \<Rightarrow> string" where
  "to_string i = (if i < 0 then CHR ''-'' # string_of_nat (nat (- i)) else string_of_nat (nat i))"

definition buildPaths :: "Context \<Rightarrow> SaveState \<Rightarrow> SaveState" where
  "buildPaths context s0 =
     (let s1 = s0\<lparr>path :=
                   (if path s0 = []
                    then savestatedir (config context) @ ''/'' @ gamename context
                           @ ''.state'' @ to_string (slot_id s0)
                    else path s0)\<rparr>;
          s2 = s1\<lparr>pagemap_path :=
                   (if pagemap_path s1 = [] then path s1 @ ''.pm'' else pagemap_path s1)\<rparr>;
          s3 = s2\<lparr>pages_path :=
                   (if pages_path s2 = [] then path s2 @ ''.p'' else pages_path s2)\<rparr>
      in s3\<lparr>movie_path :=
              (if movie_path s3 = []
               then savestatedir (config context) @ ''/'' @ gamename context
                      @ ''.movie'' @ to_string (slot_id s3) @ ''.ltm''
               else movie_path s3)\<rparr>)"

definition buildMessages :: "Context \<Rightarrow> SaveState \<Rightarrow> SaveState" where
  "buildMessages context s0 =
     (let s1 = s0\<lparr>saving_msg :=
                   (if saving_msg s0 = []
                    then (if is_backtrack s0 then ''Saving backtrack state''
                          else ''Saving state '' @ to_string (slot_id s0))
                    else saving_msg s0)\<rparr>;
          s2 = s1\<lparr>no_state_msg :=
                   (if no_state_msg s1 = []
                    then ''No savestate in slot '' @ to_string (slot_id s1)
                    else no_state_msg s1)\<rparr>;
          s3 = s2\<lparr>loading_msg :=
                   (if loading_msg s2 = []
                    then (if is_backtrack s2 then ''Loading backtrack state''
                          else ''Loading state '' @ to_string (slot_id s2))
                    else loading_msg s2)\<rparr>
      in s3\<lparr>loaded_msg :=
              (if loaded_msg s3 = []
               then (if is_backtrack s3 then ''Backtrack state loaded''
                     else ''State '' @ to_string (slot_id s3) @ '' loaded'')
               else loaded_msg s3)\<rparr>)"

definition getMoviePath :: "SaveState \<Rightarrow> string" where
  "getMoviePath s = movie_path s"

subsection \<open>save\<close>

definition save ::
  "Context \<Rightarrow> MovieFile \<Rightarrow> SaveState \<Rightarrow> world \<Rightarrow> message option \<times> SaveState \<times> world" where
  "save context movie s0 w0 =
     (let s = buildMessages context (buildPaths context s0);
          w1 = (if recording (sc (config context)) \<noteq> NO_RECORDING
                then saveMovie (movie_path s) (framecount context) movie w0
                else w0);
          w2 = sendData_int (slot_id s) (sendMessage MSGN_SAVESTATE_INDEX w1);
          w3 = (if \<not> ss_ram (sc (config context))
                then sendString (path s) (sendMessage MSGN_SAVESTATE_PATH w2)
                else create_empty (pages_path s) (create_empty (pagemap_path s) w2));
          w4 = (if osd_messages (sc (config context))
                then sendString (saving_msg s) (sendMessage MSGN_OSD_MSG w3)
                else w3);
          w5 = sendMessage MSGN_SAVESTATE w4
      in case receiveMessage w5 of
           (None, w6) \<Rightarrow> (None, s, w6)
         | (Some message, w6) \<Rightarrow>
             (Some message,
              (if message = MSGB_SAVING_SUCCEEDED
               then s\<lparr>state_framecount := framecount context\<rparr>
               else s),
              w6))"

subsection \<open>load\<close>

text \<open>
  The condition \<^verbatim>\<open>(recording != NO_RECORDING) && (access(movie_path, F_OK) == 0)\<close>, which
  the code evaluates twice in a row; \<^verbatim>\<open>&&\<close> looks at the file only in a recording mode.
\<close>

definition recording_and_movie_file :: "Context \<Rightarrow> SaveState \<Rightarrow> world \<Rightarrow> bool \<times> world" where
  "recording_and_movie_file context s w =
     (if recording (sc (config context)) \<noteq> NO_RECORDING
      then access_ok (movie_path s) w
      else (False, w))"

text \<open>
  The block run when a snapshot file is missing (the body of the first \<^verbatim>\<open>if\<close> of
  \<^verbatim>\<open>load\<close>): the offer to fast-forward the movie of the slot, or \<^verbatim>\<open>ENOSTATE\<close>.
\<close>

definition load_no_state ::
  "Context \<Rightarrow> MovieFile \<Rightarrow> SaveState \<Rightarrow> world \<Rightarrow> retcode \<times> world" where
  "load_no_state context movie s w0 =
     (let (outer, w1) = recording_and_movie_file context s w0;
          (inner, w2) = (if outer then recording_and_movie_file context s w1 else (False, w1));
          (is_prefix, w3) =
            (if inner
             then (case loadInputs (movie_path s) new_movie w2 of
                     (ret, savedmovie, w) \<Rightarrow>
                       (ret = 0 \<and> isPrefix_upto savedmovie movie (framecount context), w))
             else (False, w2))
      in if is_prefix then (ENOSTATEMOVIEPREFIX, w3)
         else (ENOSTATE,
               (if osd_messages (sc (config context))
                then sendString (no_state_msg s) (sendMessage MSGN_OSD_MSG w3)
                else w3)))"

text \<open>
  The check of a load in read mode that is no branch: \<open>Some\<close> of the code returned when
  the load is refused, \<open>None\<close> when the check passes.
\<close>

definition load_check_prefix ::
  "Context \<Rightarrow> MovieFile \<Rightarrow> SaveState \<Rightarrow> world \<Rightarrow> retcode option \<times> world" where
  "load_check_prefix context movie s w0 =
     (case loadInputs (movie_path s) new_movie w0 of
        (ret, savedmovie, w1) \<Rightarrow>
          if ret < 0 then (Some ENOMOVIE, w1)
          else if \<not> isPrefix movie savedmovie
          then (Some EINPUTMISMATCH,
                (if osd_messages (sc (config context))
                 then sendString ''Savestate inputs mismatch'' (sendMessage MSGN_OSD_MSG w1)
                 else w1))
          else (None, w1))"

text \<open>The rest of \<^verbatim>\<open>load\<close>, run when both snapshot files exist.\<close>

definition load_state ::
  "Context \<Rightarrow> MovieFile \<Rightarrow> bool \<Rightarrow> SaveState \<Rightarrow> world \<Rightarrow> retcode \<times> world" where
  "load_state context movie branch s w0 =
     (let w1 = (if \<not> ss_ram (sc (config context))
                then sendString (path s) (sendMessage MSGN_SAVESTATE_PATH w0)
                else w0);
          (refused, w2) =
            (if recording (sc (config context)) = RECORDING_READ \<and> \<not> branch
             then load_check_prefix context movie s w1
             else (None, w1))
      in case refused of
           Some code \<Rightarrow> (code, w2)
         | None \<Rightarrow>
             (RET_0,
              sendMessage MSGN_LOADSTATE
                (if osd_messages (sc (config context))
                 then sendString (loading_msg s) (sendMessage MSGN_OSD_MSG w2)
                 else w2)))"

definition load ::
  "Context \<Rightarrow> MovieFile \<Rightarrow> bool \<Rightarrow> SaveState \<Rightarrow> world \<Rightarrow> retcode \<times> SaveState \<times> world" where
  "load context movie branch s0 w0 =
     (let s = buildMessages context (buildPaths context s0);
          w1 = sendData_int (slot_id s) (sendMessage MSGN_SAVESTATE_INDEX w0);
          (pagemap_ok, w2) = access_ok (pagemap_path s) w1;
          (pages_ok, w3) = (if pagemap_ok then access_ok (pages_path s) w2 else (False, w2));
          (code, w4) = (if \<not> pagemap_ok \<or> \<not> pages_ok
                        then load_no_state context movie s w3
                        else load_state context movie branch s w3)
      in (code, s, w4))"

subsection \<open>postLoad\<close>

text \<open>
  The block of \<^verbatim>\<open>postLoad\<close> that recomputes the movie time when a recording is written.
  The nanoseconds are tested for a negative value, so they are read as signed.
\<close>

definition update_movie_time :: "Context \<Rightarrow> Context" where
  "update_movie_time c0 =
     (let c1 = c0\<lparr>config := (config c0)\<lparr>sc := (sc (config c0))\<lparr>movie_framecount := framecount c0\<rparr>\<rparr>\<rparr>;
          c2 = c1\<lparr>movie_time_sec := current_time_sec c1 - initial_time_sec (sc (config c1))\<rparr>;
          c3 = c2\<lparr>movie_time_nsec := current_time_nsec c2 - initial_time_nsec (sc (config c2))\<rparr>
      in if sint (movie_time_nsec c3) < 0
         then c3\<lparr>movie_time_nsec := movie_time_nsec c3 + 1000000000,
                 movie_time_sec := movie_time_sec c3 - 1\<rparr>
         else c3)"

text \<open>
  The three \<^verbatim>\<open>receiveData\<close> calls that read the frame count and the time into the context,
  one field after the other.
\<close>

definition receive_framecount_time :: "Context \<Rightarrow> world \<Rightarrow> bool \<times> Context \<times> world" where
  "receive_framecount_time c0 w0 =
     (case receiveData w0 of
        (None, w1) \<Rightarrow> (False, c0, w1)
      | (Some fc, w1) \<Rightarrow>
          (case receiveData w1 of
             (None, w2) \<Rightarrow> (False, c0\<lparr>framecount := fc\<rparr>, w2)
           | (Some sec, w2) \<Rightarrow>
               (case receiveData w2 of
                  (None, w3) \<Rightarrow> (False, c0\<lparr>framecount := fc, current_time_sec := sec\<rparr>, w3)
                | (Some nsec, w3) \<Rightarrow>
                    (True,
                     c0\<lparr>framecount := fc, current_time_sec := sec, current_time_nsec := nsec\<rparr>,
                     w3))))"

text \<open>
  What \<^verbatim>\<open>postLoad\<close> does when the peer has reported \<^verbatim>\<open>MSGB_LOADING_SUCCEEDED\<close>, up to the
  second \<^verbatim>\<open>receiveMessage\<close>.
\<close>

definition postLoad_didLoad ::
  "Context \<Rightarrow> MovieFile \<Rightarrow> bool \<Rightarrow> SaveState \<Rightarrow> world
     \<Rightarrow> message option \<times> Context \<times> MovieFile \<times> world" where
  "postLoad_didLoad context0 movie0 branch s w0 =
     (let w1 = sendData_config (sc (config context0)) (sendMessage MSGN_CONFIG w0);
          (movie1, w2) =
            (if recording (sc (config context0)) = RECORDING_WRITE \<or> branch
             then (case loadInputs (movie_path s) movie0 w1 of (ret, m, w) \<Rightarrow> (m, w))
             else (movie0, w1));
          (context1, movie2) =
            (if modifiedSinceLastStateLoad movie1
             then (context0\<lparr>rerecord_count := rerecord_count context0 + 1\<rparr>,
                   movie1\<lparr>modifiedSinceLastStateLoad := False\<rparr>)
             else (context0, movie1))
      in case receiveMessage w2 of (message, w3) \<Rightarrow> (message, context1, movie2, w3))"

text \<open>
  The end of \<^verbatim>\<open>postLoad\<close>, from the test of the message that must be the frame count
  report: \<open>message\<close> is the last message received (\<open>None\<close> while none has arrived).
\<close>

definition postLoad_finish ::
  "bool \<Rightarrow> message option \<Rightarrow> Context \<Rightarrow> MovieFile \<Rightarrow> SaveState \<Rightarrow> world
     \<Rightarrow> retcode option \<times> Context \<times> MovieFile \<times> world" where
  "postLoad_finish didLoad message context0 movie s w0 =
     (case message of
        None \<Rightarrow> (None, context0, movie, w0)
      | Some m \<Rightarrow>
          if m \<noteq> MSGB_FRAMECOUNT_TIME then (Some ENOLOAD, context0, movie, w0)
          else
            (case receive_framecount_time context0 w0 of
               (False, context1, w1) \<Rightarrow> (None, context1, movie, w1)
             | (True, context1, w1) \<Rightarrow>
                 (let context2 =
                        (if recording (sc (config context1)) = RECORDING_WRITE
                         then update_movie_time context1
                         else context1);
                      w2 = (if didLoad \<and> osd_messages (sc (config context2))
                            then sendString (loaded_msg s) (sendMessage MSGN_OSD_MSG w1)
                            else w1);
                      w3 = sendMessage MSGN_EXPOSE w2
                  in (Some (if didLoad then RET_MSG MSGB_LOADING_SUCCEEDED else RET_0),
                      context2, movie, w3))))"

definition postLoad ::
  "Context \<Rightarrow> MovieFile \<Rightarrow> bool \<Rightarrow> SaveState \<Rightarrow> world
     \<Rightarrow> retcode option \<times> Context \<times> MovieFile \<times> world" where
  "postLoad context0 movie0 branch s w0 =
     (case receiveMessage w0 of
        (None, w1) \<Rightarrow> (None, context0, movie0, w1)
      | (Some first, w1) \<Rightarrow>
          (let didLoad = (first = MSGB_LOADING_SUCCEEDED);
               (message, context1, movie1, w2) =
                 (if didLoad then postLoad_didLoad context0 movie0 branch s w1
                  else (Some first, context0, movie0, w1))
           in postLoad_finish didLoad message context1 movie1 s w2))"

text \<open>What an operation has added to the trace of the world it started from.\<close>

definition emitted :: "world \<Rightarrow> world \<Rightarrow> event list" where
  "emitted w w' = drop (length (trace w)) (trace w')"

text \<open>The events that put something on the channel to the game, and the writes of a movie.\<close>

fun is_send :: "event \<Rightarrow> bool" where
  "is_send (SendMessage m) = True"
| "is_send (SendData_int i) = True"
| "is_send (SendData_config c) = True"
| "is_send (SendString s) = True"
| "is_send e = False"

fun is_SaveMovie :: "event \<Rightarrow> bool" where
  "is_SaveMovie (SaveMovie p n frames) = True"
| "is_SaveMovie e = False"

subsection \<open>Sequences of operations\<close>

text \<open>
  Modelled from the spec: an edit of the movie (MovieFile.cpp is not among the sources).
  The spec's movie has "a dirty flag (modified since last load)"; an edit changes the
  recorded frames and sets it.
\<close>

definition edit :: "AllInputs list \<Rightarrow> MovieFile \<Rightarrow> MovieFile" where
  "edit frames m = m\<lparr>input_list := frames, modifiedSinceLastStateLoad := True\<rparr>"

text \<open>
  The operations the controller runs on one context, one movie and one world, in any
  order: an edit, the request of a load, and a post-load. A post-load carries the packets
  the channel holds for it. An operation that waits for ever leaves the state it had
  reached.
\<close>

datatype op =
    Edit "AllInputs list"
  | Load SaveState bool
  | PostLoad SaveState bool "packet list"

fun step :: "op \<Rightarrow> Context \<times> MovieFile \<times> world \<Rightarrow> Context \<times> MovieFile \<times> world" where
  "step (Edit frames) (c, m, w) = (c, edit frames m, w)"
| "step (Load s branch) (c, m, w) = (c, m, snd (snd (load c m branch s w)))"
| "step (PostLoad s branch replies) (c, m, w) = snd (postLoad c m branch s (w\<lparr>inbox := replies\<rparr>))"

fun run :: "op list \<Rightarrow> Context \<times> MovieFile \<times> world \<Rightarrow> Context \<times> MovieFile \<times> world" where
  "run [] st = st"
| "run (x # xs) st = run xs (step x st)"

text \<open>The peer reports a successful load: the first packet is \<^verbatim>\<open>MSGB_LOADING_SUCCEEDED\<close>.\<close>

fun succeeded :: "packet list \<Rightarrow> bool" where
  "succeeded (Message m # rest) = (m = MSGB_LOADING_SUCCEEDED)"
| "succeeded ps = False"

text \<open>
  The number of rerecords as the spec words it: one more for each post-load of a
  successful load that follows a modification of the movie, the modification being
  forgotten by that load; nothing for any other operation. \<open>dirty\<close> says whether the movie
  has been modified since the last successful load.
\<close>

fun rerecords :: "bool \<Rightarrow> op list \<Rightarrow> nat" where
  "rerecords dirty [] = 0"
| "rerecords dirty (Edit frames # xs) = rerecords True xs"
| "rerecords dirty (Load s branch # xs) = rerecords dirty xs"
| "rerecords dirty (PostLoad s branch replies # xs) =
     (if succeeded replies
      then (if dirty then 1 else 0) + rerecords False xs
      else rerecords dirty xs)"

fun dirty_after :: "bool \<Rightarrow> op list \<Rightarrow> bool" where
  "dirty_after dirty [] = dirty"
| "dirty_after dirty (Edit frames # xs) = dirty_after True xs"
| "dirty_after dirty (Load s branch # xs) = dirty_after dirty xs"
| "dirty_after dirty (PostLoad s branch replies # xs) =
     dirty_after (if succeeded replies then False else dirty) xs"

subsection \<open>A concrete slot\<close>

text \<open>
  Slot 2 of the game \<open>game\<close>, with the states kept in \<open>/tmp/states\<close>: no path and no message
  has been built yet. The disk holds the two snapshot files of the slot and its movie,
  saved at frame 500 with the frames U, U, D, D.
\<close>

definition config_read :: SharedConfig where
  "config_read = \<lparr>recording = RECORDING_READ, ss_ram = False, osd_messages = True,
     movie_framecount = 0, initial_time_sec = 0, initial_time_nsec = 0\<rparr>"

definition context_500 :: Context where
  "context_500 = \<lparr>config = \<lparr>savestatedir = ''/tmp/states'', sc = config_read\<rparr>,
     gamename = ''game'', framecount = 500, current_time_sec = 0, current_time_nsec = 0,
     movie_time_sec = 0, movie_time_nsec = 0, rerecord_count = 0\<rparr>"

definition slot_2 :: SaveState where
  "slot_2 = \<lparr>slot_id = 2, is_backtrack = False, state_framecount = 0, path = [],
     pagemap_path = [], pages_path = [], movie_path = [], saving_msg = [], no_state_msg = [],
     loading_msg = [], loaded_msg = []\<rparr>"

definition disk_slot_2 :: "string \<rightharpoonup> file_content" where
  "disk_slot_2 =
     [''/tmp/states/game.state2.pm'' \<mapsto> Raw,
      ''/tmp/states/game.state2.p'' \<mapsto> Raw,
      ''/tmp/states/game.movie2.ltm'' \<mapsto> MovieData [''U'', ''U'', ''D'', ''D''] 500]"

definition world_slot_2 :: world where
  "world_slot_2 = \<lparr>disk = disk_slot_2, inbox = [], trace = []\<rparr>"

definition live_movie :: MovieFile where
  "live_movie = \<lparr>input_list = [''U'', ''U'', ''D'', ''D'', ''L''], modifiedSinceLastStateLoad = False\<rparr>"

text \<open>
  The movie that the file of slot 2 holds, a movie that stops after two of its frames, a
  disk that holds nothing, and a disk that holds the movie of slot 2 but no snapshot.
\<close>

definition world_empty :: world where
  "world_empty = \<lparr>disk = Map.empty, inbox = [], trace = []\<rparr>"

definition world_movie_only :: world where
  "world_movie_only =
     \<lparr>disk = [''/tmp/states/game.movie2.ltm'' \<mapsto> MovieData [''U'', ''U'', ''D'', ''D''] 500],
      inbox = [], trace = []\<rparr>"

definition slot_2_movie :: MovieFile where
  "slot_2_movie = \<lparr>input_list = [''U'', ''U'', ''D'', ''D''], modifiedSinceLastStateLoad = False\<rparr>"

definition short_movie :: MovieFile where
  "short_movie = \<lparr>input_list = [''U'', ''U''], modifiedSinceLastStateLoad = False\<rparr>"

text \<open>
  The same context at frame 2, while a recording is written, and with no recording; and a
  world in which the game answers a save with \<^verbatim>\<open>MSGB_SAVING_SUCCEEDED\<close>.
\<close>

definition context_2 :: Context where
  "context_2 = context_500\<lparr>framecount := 2\<rparr>"

definition context_write :: Context where
  "context_write =
     context_500\<lparr>config := (config context_500)\<lparr>sc := config_read\<lparr>recording := RECORDING_WRITE\<rparr>\<rparr>\<rparr>"

definition context_off :: Context where
  "context_off =
     context_500\<lparr>config := (config context_500)\<lparr>sc := config_read\<lparr>recording := NO_RECORDING\<rparr>\<rparr>\<rparr>"

definition world_saved :: world where
  "world_saved = \<lparr>disk = Map.empty, inbox = [Message MSGB_SAVING_SUCCEEDED], trace = []\<rparr>"

text \<open>
  What the game can send after a load: the report of success and the frame count report,
  the frame count report alone (the load has failed), a message that is neither, and the
  report of success followed by a message that is not the frame count report.
\<close>

definition replies_loaded :: "packet list" where
  "replies_loaded = [Message MSGB_LOADING_SUCCEEDED, Message MSGB_FRAMECOUNT_TIME,
                     Data64 500, Data64 12, Data64 340]"

definition replies_not_loaded :: "packet list" where
  "replies_not_loaded = [Message MSGB_FRAMECOUNT_TIME, Data64 500, Data64 12, Data64 340]"

definition replies_other :: "packet list" where
  "replies_other = [Message (MSG_OTHER 0)]"

definition replies_loaded_other :: "packet list" where
  "replies_loaded_other = [Message MSGB_LOADING_SUCCEEDED, Message (MSG_OTHER 0)]"

text \<open>The current movie after an edit, and a session of nine operations.\<close>

definition edited_movie :: MovieFile where
  "edited_movie = edit [''U'', ''U'', ''D'', ''D'', ''R''] live_movie"

definition session_ops :: "op list" where
  "session_ops =
     [Edit [''U'', ''U'', ''D'', ''D'', ''R''],
      Load slot_2 False,
      PostLoad slot_2 False replies_loaded,
      PostLoad slot_2 False replies_loaded,
      Edit [''U'', ''U'', ''D'', ''D'', ''L''],
      PostLoad slot_2 False replies_not_loaded,
      PostLoad slot_2 False replies_other,
      PostLoad slot_2 True replies_loaded_other,
      PostLoad slot_2 True replies_loaded]"

section \<open>The dynamic symbol interceptor (dlhook.cpp)\<close>

subsection \<open>Strings and pointers\<close>

text \<open>
  \<^verbatim>\<open>std::string::find\<close>: the first position at which \<open>pat\<close> occurs in the string, \<open>None\<close>
  for \<^verbatim>\<open>npos\<close>.
\<close>

fun str_find :: "string \<Rightarrow> string \<Rightarrow> nat option" where
  "str_find [] pat = (if pat = [] then Some 0 else None)"
| "str_find (c # cs) pat =
     (if prefix pat (c # cs) then Some 0 else map_option Suc (str_find cs pat))"

text \<open>\<^verbatim>\<open>file != nullptr && std::string(file).find(pat) != std::string::npos\<close>\<close>

definition file_contains :: "string option \<Rightarrow> string \<Rightarrow> bool" where
  "file_contains file pat = (case file of None \<Rightarrow> False | Some f \<Rightarrow> str_find f pat \<noteq> None)"

text \<open>
  A pointer is a 64 bit word. The two pseudo-handles are those of \<^verbatim>\<open>dlfcn.h\<close>:
  \<^verbatim>\<open>RTLD_NEXT\<close> is \<^verbatim>\<open>(void *) -1l\<close> and \<^verbatim>\<open>RTLD_DEFAULT\<close> is \<^verbatim>\<open>(void *) 0\<close>.
\<close>

type_synonym addr = "64 word"

definition nullptr :: addr where
  "nullptr = 0"

definition RTLD_NEXT :: addr where
  "RTLD_NEXT = - 1"

definition RTLD_DEFAULT :: addr where
  "RTLD_DEFAULT = 0"

definition RTLD_LAZY :: int where
  "RTLD_LAZY = 1"

subsection \<open>The loader and the state of the interceptor\<close>

text \<open>
  What lies outside dlhook.cpp is a parameter: the answers of the real \<^verbatim>\<open>dlopen\<close> and
  \<^verbatim>\<open>dlsym\<close> (for \<^verbatim>\<open>dlsym\<close> the address and whether \<^verbatim>\<open>dlerror()\<close> reports an error after it), of
  \<^verbatim>\<open>_dl_sym\<close> and of \<^verbatim>\<open>dladdr\<close> (the \<^verbatim>\<open>dli_fname\<close> of the object that holds an address, \<open>None\<close>
  when \<^verbatim>\<open>dladdr\<close> returns 0), the value of \<^verbatim>\<open>LIBTAS_LIBRARY_PATH\<close>, the addresses of the two
  wrappers, and the default of the second parameter of \<^verbatim>\<open>find_sym\<close>, which dlhook.h
  declares.
\<close>

record loader =
  real_dlopen :: "string option \<Rightarrow> int \<Rightarrow> addr"
  real_dlsym :: "addr \<Rightarrow> string \<Rightarrow> addr \<times> bool"
  dl_sym :: "addr \<Rightarrow> string \<Rightarrow> addr"
  dladdr_fname :: "addr \<Rightarrow> string option"
  libtas_library_path :: string
  dlopen_wrapper :: addr
  dlsym_wrapper :: addr
  find_sym_default :: bool

datatype hook = wined3d | user32 | kernel32 | ntdll

text \<open>
  Every call that leaves the interceptor, in the order it is made: the bootstrap lookup
  \<^verbatim>\<open>_dl_sym(RTLD_NEXT, name, wrapper)\<close> that caches an \<^verbatim>\<open>orig::\<close> pointer, the resolution of a
  request by \<^verbatim>\<open>_dl_sym\<close>, by \<^verbatim>\<open>orig::dlsym\<close> or by \<^verbatim>\<open>orig::dlopen\<close>, and the hook installers.
\<close>

datatype call =
    Call_bootstrap string
  | Call_dl_sym addr string
  | Call_orig_dlsym addr string
  | Call_orig_dlopen "string option" int
  | Call_hook hook
  | Call_setUnity

text \<open>
  The static variables of the file (\<open>library_set\<close>, the two \<^verbatim>\<open>orig::\<close> pointers,
  \<open>recurs_count\<close> and \<open>safe\<close>), the execution mode that \<^verbatim>\<open>GlobalState::isNative()\<close> reads,
  and the calls made so far. \<open>recurs_count\<close> is a C \<^verbatim>\<open>int\<close>; it counts nested calls and is
  kept as an integer. A call of the loader is one step: a call of \<^verbatim>\<open>dlsym\<close> that is made
  while another one is running is a call that finds \<open>recurs_count\<close> above zero. The lines
  that the code writes to its debug log are left out.
\<close>

record dlstate =
  library_set :: "string fset"
  orig_dlopen :: addr
  orig_dlsym :: addr
  recurs_count :: int
  safe :: bool
  native :: bool
  calls :: "call list"

definition log_call :: "call \<Rightarrow> dlstate \<Rightarrow> dlstate" where
  "log_call c st = st\<lparr>calls := calls st @ [c]\<rparr>"

text \<open>
  A call through \<^verbatim>\<open>orig::dlopen\<close>, through \<^verbatim>\<open>orig::dlsym\<close> and of \<^verbatim>\<open>_dl_sym\<close>: the pointer the
  bootstrap has cached is the function of the loader.
\<close>

definition call_orig_dlopen :: "loader \<Rightarrow> string option \<Rightarrow> int \<Rightarrow> dlstate \<Rightarrow> addr \<times> dlstate" where
  "call_orig_dlopen ld file mode st = (real_dlopen ld file mode, log_call (Call_orig_dlopen file mode) st)"

definition call_orig_dlsym :: "loader \<Rightarrow> addr \<Rightarrow> string \<Rightarrow> dlstate \<Rightarrow> (addr \<times> bool) \<times> dlstate" where
  "call_orig_dlsym ld handle name st = (real_dlsym ld handle name, log_call (Call_orig_dlsym handle name) st)"

definition call_dl_sym :: "loader \<Rightarrow> addr \<Rightarrow> string \<Rightarrow> dlstate \<Rightarrow> addr \<times> dlstate" where
  "call_dl_sym ld handle name st = (dl_sym ld handle name, log_call (Call_dl_sym handle name) st)"

definition bootstrap :: "loader \<Rightarrow> string \<Rightarrow> dlstate \<Rightarrow> addr \<times> dlstate" where
  "bootstrap ld name st = (dl_sym ld RTLD_NEXT name, log_call (Call_bootstrap name) st)"

subsection \<open>The registry of loaded libraries\<close>

definition add_lib :: "string option \<Rightarrow> dlstate \<Rightarrow> dlstate" where
  "add_lib library st =
     (case library of
        None \<Rightarrow> st
      | Some l \<Rightarrow> st\<lparr>library_set := finsert l (library_set st)\<rparr>)"

subsection \<open>dlopen\<close>

definition dlopen :: "loader \<Rightarrow> string option \<Rightarrow> int \<Rightarrow> dlstate \<Rightarrow> addr \<times> dlstate" where
  "dlopen ld file mode st0 =
     (let st1 = (if orig_dlopen st0 = nullptr
                 then (case bootstrap ld ''dlopen'' st0 of (p, st) \<Rightarrow> st\<lparr>orig_dlopen := p\<rparr>)
                 else st0)
      in if native st1 then call_orig_dlopen ld file mode st1
         else if file_contains file ''libpulse'' then (nullptr, st1)
         else if file_contains file ''ScreenSelector.so'' then (nullptr, st1)
         else
           (let (result, st2) = call_orig_dlopen ld file mode st1;
                st3 = (if result \<noteq> nullptr then add_lib file st2 else st2);
                st4 = (if result \<noteq> nullptr \<and> file_contains file ''wined3d.dll.so''
                       then log_call (Call_hook wined3d) st3 else st3);
                st5 = (if result \<noteq> nullptr \<and> file_contains file ''user32.dll.so''
                       then log_call (Call_hook user32) st4 else st4);
                st6 = (if result \<noteq> nullptr \<and> file_contains file ''kernel32.dll.so''
                       then log_call (Call_hook kernel32) st5 else st5)
            in (result, st6)))"

subsection \<open>find_sym\<close>

definition find_sym :: "loader \<Rightarrow> string \<Rightarrow> bool \<Rightarrow> dlstate \<Rightarrow> addr \<times> dlstate" where
  "find_sym ld name original st0 =
     (case call_orig_dlsym ld RTLD_DEFAULT name st0 of
        ((a, err), st1) \<Rightarrow>
          if \<not> err then
            (case dladdr_fname ld a of
               None \<Rightarrow> (a, st1)
             | Some libpath \<Rightarrow>
                 (let libtasstr = libtas_library_path ld;
                      fromLibtas =
                        (length libpath \<ge> length libtasstr \<and>
                         drop (length libpath - length libtasstr) libpath = libtasstr)
                  in if original = fromLibtas then (nullptr, st1) else (a, st1)))
          else (a, st1))"

subsection \<open>dlsym\<close>

text \<open>
  The block for \<^verbatim>\<open>handle == RTLD_NEXT\<close>. \<^verbatim>\<open>GlobalNative gn\<close> switches to native mode for the
  block and the mode it found is restored when the block is left. \<open>Some\<close> is the early
  \<^verbatim>\<open>return\<close> for the four \<^verbatim>\<open>localtime\<close> symbols.
\<close>

definition dlsym_rtld_next :: "loader \<Rightarrow> string \<Rightarrow> dlstate \<Rightarrow> addr option \<times> dlstate" where
  "dlsym_rtld_next ld name st0 =
     (if name = ''localtime'' \<or> name = ''localtime64'' \<or> name = ''localtime_r''
         \<or> name = ''localtime64_r''
      then
        (let (libc_handle, st1) = dlopen ld (Some ''libc.so.6'') RTLD_LAZY (st0\<lparr>native := True\<rparr>);
             ((ret, err), st2) = call_orig_dlsym ld libc_handle name st1;
             st3 = st2\<lparr>recurs_count := recurs_count st2 - 1\<rparr>
         in (Some ret, st3\<lparr>native := native st0\<rparr>))
      else (None, st0))"

text \<open>The end of \<^verbatim>\<open>dlsym\<close>: the lookup of a name that no special case has answered.\<close>

definition dlsym_lookup :: "loader \<Rightarrow> addr \<Rightarrow> string \<Rightarrow> dlstate \<Rightarrow> addr \<times> dlstate" where
  "dlsym_lookup ld handle name st0 =
     (let st1 = (if name = ''mono_unity_liveness_allocate_struct''
                 then log_call Call_setUnity st0 else st0);
          (found, st2) = find_sym ld name (find_sym_default ld) st1;
          (a, st3) = (if found = nullptr
                      then (case call_orig_dlsym ld handle name st2 of ((r, err), st) \<Rightarrow> (r, st))
                      else (found, st2));
          st4 = (if name = ''__wine_process_init'' then log_call (Call_hook ntdll) st3 else st3)
      in (a, st4\<lparr>recurs_count := recurs_count st4 - 1\<rparr>))"

text \<open>
  The entry of \<^verbatim>\<open>dlsym\<close>: the bootstrap of \<^verbatim>\<open>orig::dlsym\<close>, then \<^verbatim>\<open>safe = (recurs_count > 0)\<close>
  and \<^verbatim>\<open>recurs_count++\<close>.
\<close>

definition dlsym_enter :: "loader \<Rightarrow> dlstate \<Rightarrow> dlstate" where
  "dlsym_enter ld st0 =
     (let st1 = (if orig_dlsym st0 = nullptr
                 then (case bootstrap ld ''dlsym'' st0 of (p, st) \<Rightarrow> st\<lparr>orig_dlsym := p\<rparr>)
                 else st0);
          st2 = st1\<lparr>safe := (recurs_count st1 > 0)\<rparr>
      in st2\<lparr>recurs_count := recurs_count st2 + 1\<rparr>)"

text \<open>What follows the entry, with its five \<^verbatim>\<open>return\<close> statements.\<close>

definition dlsym_body :: "loader \<Rightarrow> addr \<Rightarrow> string \<Rightarrow> dlstate \<Rightarrow> addr \<times> dlstate" where
  "dlsym_body ld handle name st0 =
     (if native st0 then
        (let (ret, st1) = (if safe st0
                           then call_dl_sym ld handle name st0
                           else (case call_orig_dlsym ld handle name st0 of
                                   ((r, err), st) \<Rightarrow> (r, st)))
         in (ret, st1\<lparr>recurs_count := recurs_count st1 - 1\<rparr>))
      else if name = ''dlopen''
      then (dlopen_wrapper ld, st0\<lparr>recurs_count := recurs_count st0 - 1\<rparr>)
      else if name = ''dlsym''
      then (dlsym_wrapper ld, st0\<lparr>recurs_count := recurs_count st0 - 1\<rparr>)
      else
        (case (if handle = RTLD_NEXT then dlsym_rtld_next ld name st0 else (None, st0)) of
           (Some ret, st1) \<Rightarrow> (ret, st1)
         | (None, st1) \<Rightarrow> dlsym_lookup ld handle name st1))"

definition dlsym :: "loader \<Rightarrow> addr \<Rightarrow> string \<Rightarrow> dlstate \<Rightarrow> addr \<times> dlstate" where
  "dlsym ld handle name st = dlsym_body ld handle name (dlsym_enter ld st)"

text \<open>The calls an operation of the interceptor has added to the log.\<close>

definition new_calls :: "dlstate \<Rightarrow> dlstate \<Rightarrow> call list" where
  "new_calls st st' = drop (length (calls st)) (calls st')"

text \<open>A sequence of requests, each \<^verbatim>\<open>dlsym\<close> call made after the one before it has returned.\<close>

fun dlsym_all :: "loader \<Rightarrow> (addr \<times> string) list \<Rightarrow> dlstate \<Rightarrow> dlstate" where
  "dlsym_all ld [] st = st"
| "dlsym_all ld ((handle, name) # rs) st = dlsym_all ld rs (snd (dlsym ld handle name st))"

subsection \<open>A concrete loader\<close>

text \<open>
  A loader that finds every library and every symbol, and the statics of the interceptor
  as they are when the process starts.
\<close>

definition loader_0 :: loader where
  "loader_0 = \<lparr>real_dlopen = (\<lambda>f m. 4096), real_dlsym = (\<lambda>h n. (8192, False)),
     dl_sym = (\<lambda>h n. 12288), dladdr_fname = (\<lambda>a. None), libtas_library_path = ''libtas.so'',
     dlopen_wrapper = 16, dlsym_wrapper = 32, find_sym_default = False\<rparr>"

definition dlstate_0 :: dlstate where
  "dlstate_0 = \<lparr>library_set = {||}, orig_dlopen = nullptr, orig_dlsym = nullptr,
     recurs_count = 0, safe = False, native = False, calls = []\<rparr>"

definition dlstate_ready :: dlstate where
  "dlstate_ready = dlstate_0\<lparr>orig_dlopen := 12288, orig_dlsym := 12288\<rparr>"

definition dlstate_nested :: dlstate where
  "dlstate_nested = dlstate_ready\<lparr>recurs_count := 1\<rparr>"

definition dlstate_native_nested :: dlstate where
  "dlstate_native_nested = dlstate_ready\<lparr>recurs_count := 1, native := True\<rparr>"

section \<open>Facts about the savestate coordinator\<close>

subsection \<open>The world\<close>

lemma emit_simps [simp]:
  "trace (emit e w) = trace w @ [e]" "disk (emit e w) = disk w" "inbox (emit e w) = inbox w"
  by (simp_all add: emit_def)

lemma send_simps [simp]:
  "trace (sendMessage x w) = trace w @ [SendMessage x]"
  "disk (sendMessage x w) = disk w"
  "inbox (sendMessage x w) = inbox w"
  "trace (sendData_int i w) = trace w @ [SendData_int i]"
  "disk (sendData_int i w) = disk w"
  "inbox (sendData_int i w) = inbox w"
  "trace (sendData_config k w) = trace w @ [SendData_config k]"
  "disk (sendData_config k w) = disk w"
  "inbox (sendData_config k w) = inbox w"
  "trace (sendString t w) = trace w @ [SendString t]"
  "disk (sendString t w) = disk w"
  "inbox (sendString t w) = inbox w"
  by (simp_all add: sendMessage_def sendData_int_def sendData_config_def sendString_def)

lemma saveMovie_simps [simp]:
  "trace (saveMovie p n m w) = trace w @ [SaveMovie p n (input_list m)]"
  "inbox (saveMovie p n m w) = inbox w"
  "disk (saveMovie p n m w) = (disk w)(p \<mapsto> MovieData (input_list m) n)"
  by (simp_all add: saveMovie_def)

lemma create_empty_simps [simp]:
  "trace (create_empty p w) = trace w @ [CreateFile p]"
  "inbox (create_empty p w) = inbox w"
  "disk (create_empty p w) = (disk w)(p \<mapsto> Raw)"
  by (simp_all add: create_empty_def)

lemma emitted_append: "trace w' = trace w @ es \<Longrightarrow> emitted w w' = es"
  by (simp add: emitted_def)

lemma emitted_trans:
  "prefix (trace w) (trace w1) \<Longrightarrow> prefix (trace w1) (trace w2) \<Longrightarrow>
   emitted w w2 = emitted w w1 @ emitted w1 w2"
  by (auto simp: emitted_def prefix_def)

lemma emitted_last:
  assumes "prefix (trace w) (trace w1)" "prefix (trace w1) (trace w2)" "emitted w1 w2 \<noteq> []"
  shows "emitted w w2 \<noteq> []" "last (emitted w w2) = last (emitted w1 w2)"
  using emitted_trans[OF assms(1,2)] assms(3) by simp_all

lemma emitted_set:
  assumes "prefix (trace w) (trace w1)" "prefix (trace w1) (trace w2)"
  shows "set (emitted w w2) = set (emitted w w1) \<union> set (emitted w1 w2)"
  using emitted_trans[OF assms] by simp

lemma receiveMessage_cases:
  "receiveMessage w = (None, w) \<or>
   (\<exists>x rest. inbox w = Message x # rest \<and>
      receiveMessage w = (Some x, emit (ReceiveMessage x) (w\<lparr>inbox := rest\<rparr>)))"
  by (simp add: receiveMessage_def split: list.splits packet.splits)

lemma receiveMessage_trace:
  "trace (snd (receiveMessage w)) =
     trace w @ (case fst (receiveMessage w) of None \<Rightarrow> [] | Some x \<Rightarrow> [ReceiveMessage x])"
  using receiveMessage_cases[of w] by auto

lemma receiveMessage_disk [simp]: "disk (snd (receiveMessage w)) = disk w"
  using receiveMessage_cases[of w] by auto

lemma receiveMessage_succeeded:
  "(fst (receiveMessage w) = Some MSGB_LOADING_SUCCEEDED) = succeeded (inbox w)"
  by (cases "inbox w" rule: succeeded.cases) (simp_all add: receiveMessage_def)

lemma receiveData_prefix: "prefix (trace w) (trace (snd (receiveData w)))"
  by (simp add: receiveData_def split: list.splits packet.splits)

lemma receiveData_no_send: "SendMessage x \<notin> set (emitted w (snd (receiveData w)))"
  by (simp add: receiveData_def emitted_def split: list.splits packet.splits)

subsection \<open>The movie\<close>

lemma loadInputs_world [simp]: "snd (snd (loadInputs p m w)) = emit (LoadInputs p) w"
  by (simp add: loadInputs_def split: option.splits file_content.splits)

lemma loadInputs_disk:
  "disk w' = disk w \<Longrightarrow> fst (loadInputs p m w') = fst (loadInputs p m w)"
  "disk w' = disk w \<Longrightarrow> fst (snd (loadInputs p m w')) = fst (snd (loadInputs p m w))"
  by (simp_all add: loadInputs_def split: option.splits file_content.splits)

lemma loadInputs_emit [simp]:
  "fst (loadInputs p m (emit e w)) = fst (loadInputs p m w)"
  "fst (snd (loadInputs p m (emit e w))) = fst (snd (loadInputs p m w))"
  by (simp_all add: loadInputs_def split: option.splits file_content.splits)

lemma loadInputs_send [simp]:
  "fst (loadInputs p m (sendMessage x w)) = fst (loadInputs p m w)"
  "fst (snd (loadInputs p m (sendMessage x w))) = fst (snd (loadInputs p m w))"
  "fst (loadInputs p m (sendString y w)) = fst (loadInputs p m w)"
  "fst (snd (loadInputs p m (sendString y w))) = fst (snd (loadInputs p m w))"
  by (simp_all add: sendMessage_def sendString_def)

lemma loadInputs_flag [simp]:
  "modifiedSinceLastStateLoad (fst (snd (loadInputs p m w))) = modifiedSinceLastStateLoad m"
  by (simp add: loadInputs_def split: option.splits file_content.splits)

subsection \<open>Paths and messages\<close>

lemma buildPaths_slot_id [simp]: "slot_id (buildPaths c s) = slot_id s"
  by (simp add: buildPaths_def Let_def)

lemma buildMessages_fields [simp]:
  "slot_id (buildMessages c s) = slot_id s"
  "path (buildMessages c s) = path s"
  "pagemap_path (buildMessages c s) = pagemap_path s"
  "pages_path (buildMessages c s) = pages_path s"
  "movie_path (buildMessages c s) = movie_path s"
  by (simp_all add: buildMessages_def Let_def)

subsection \<open>load\<close>

lemma load_no_state_prefix: "prefix (trace w) (trace (snd (load_no_state c m s w)))"
  by (simp add: load_no_state_def recording_and_movie_file_def access_ok_def Let_def split_beta)

lemma load_no_state_code:
  "fst (load_no_state c m s w) =
     (if recording (sc (config c)) \<noteq> NO_RECORDING \<and> disk w (movie_path s) \<noteq> None
         \<and> fst (loadInputs (movie_path s) new_movie w) = 0
         \<and> isPrefix_upto (fst (snd (loadInputs (movie_path s) new_movie w))) m (framecount c)
      then ENOSTATEMOVIEPREFIX else ENOSTATE)"
  by (auto simp add: load_no_state_def recording_and_movie_file_def Let_def split_beta
        access_ok_def)

lemma load_check_prefix_code:
  "fst (load_check_prefix c m s w) =
     (if fst (loadInputs (movie_path s) new_movie w) < 0 then Some ENOMOVIE
      else if \<not> isPrefix m (fst (snd (loadInputs (movie_path s) new_movie w)))
      then Some EINPUTMISMATCH
      else None)"
  by (simp add: load_check_prefix_def split_beta)

lemma load_check_prefix_prefix: "prefix (trace w) (trace (snd (load_check_prefix c m s w)))"
  by (simp add: load_check_prefix_def Let_def split_beta)

lemma load_state_code:
  "fst (load_state c m b s w) =
     (if recording (sc (config c)) = RECORDING_READ \<and> \<not> b
      then (if fst (loadInputs (movie_path s) new_movie w) < 0 then ENOMOVIE
            else if \<not> isPrefix m (fst (snd (loadInputs (movie_path s) new_movie w)))
            then EINPUTMISMATCH
            else RET_0)
      else RET_0)"
  by (simp add: load_state_def Let_def split_beta load_check_prefix_code)

lemma load_state_events:
  "emitted w (snd (load_state c m b s w)) =
     (if \<not> ss_ram (sc (config c)) then [SendMessage MSGN_SAVESTATE_PATH, SendString (path s)]
      else []) @
     (if recording (sc (config c)) = RECORDING_READ \<and> \<not> b
      then LoadInputs (movie_path s) #
           (if fst (load_state c m b s w) = EINPUTMISMATCH \<and> osd_messages (sc (config c))
            then [SendMessage MSGN_OSD_MSG, SendString ''Savestate inputs mismatch'']
            else [])
      else []) @
     (if fst (load_state c m b s w) = RET_0
      then (if osd_messages (sc (config c))
            then [SendMessage MSGN_OSD_MSG, SendString (loading_msg s)] else [])
           @ [SendMessage MSGN_LOADSTATE]
      else [])"
  by (simp add: load_state_def Let_def split_beta load_check_prefix_def emitted_def)

lemma load_state_prefix: "prefix (trace w) (trace (snd (load_state c m b s w)))"
proof -
  have "trace (snd (load_state c m b s w)) = trace w @ emitted w (snd (load_state c m b s w))"
    by (simp add: load_state_def Let_def split_beta load_check_prefix_def emitted_def)
  then show ?thesis by (metis prefixI)
qed

text \<open>
  The three ways through the test of the snapshot files: \<open>w1\<close> is the world in which the
  rest of \<^verbatim>\<open>load\<close> runs.
\<close>

lemma load_pagemap_absent:
  assumes "disk w (pagemap_path (buildPaths c s)) = None"
  shows "\<exists>w1. disk w1 = disk w
     \<and> trace w1 = trace w @ [SendMessage MSGN_SAVESTATE_INDEX, SendData_int (slot_id s),
                              Access (pagemap_path (buildPaths c s))]
     \<and> load c m b s w =
         (fst (load_no_state c m (buildMessages c (buildPaths c s)) w1),
          buildMessages c (buildPaths c s),
          snd (load_no_state c m (buildMessages c (buildPaths c s)) w1))"
  using assms
  by (intro exI[of _ "emit (Access (pagemap_path (buildPaths c s)))
        (sendData_int (slot_id s) (sendMessage MSGN_SAVESTATE_INDEX w))"])
     (auto simp add: load_def Let_def split_beta access_ok_def)

lemma load_pages_absent:
  assumes "disk w (pagemap_path (buildPaths c s)) \<noteq> None"
    and "disk w (pages_path (buildPaths c s)) = None"
  shows "\<exists>w1. disk w1 = disk w
     \<and> trace w1 = trace w @ [SendMessage MSGN_SAVESTATE_INDEX, SendData_int (slot_id s),
                              Access (pagemap_path (buildPaths c s)),
                              Access (pages_path (buildPaths c s))]
     \<and> load c m b s w =
         (fst (load_no_state c m (buildMessages c (buildPaths c s)) w1),
          buildMessages c (buildPaths c s),
          snd (load_no_state c m (buildMessages c (buildPaths c s)) w1))"
  using assms
  by (intro exI[of _ "emit (Access (pages_path (buildPaths c s)))
        (emit (Access (pagemap_path (buildPaths c s)))
        (sendData_int (slot_id s) (sendMessage MSGN_SAVESTATE_INDEX w)))"])
     (auto simp add: load_def Let_def split_beta access_ok_def)

lemma load_present:
  assumes "disk w (pagemap_path (buildPaths c s)) \<noteq> None"
    and "disk w (pages_path (buildPaths c s)) \<noteq> None"
  shows "\<exists>w1. disk w1 = disk w
     \<and> trace w1 = trace w @ [SendMessage MSGN_SAVESTATE_INDEX, SendData_int (slot_id s),
                              Access (pagemap_path (buildPaths c s)),
                              Access (pages_path (buildPaths c s))]
     \<and> load c m b s w =
         (fst (load_state c m b (buildMessages c (buildPaths c s)) w1),
          buildMessages c (buildPaths c s),
          snd (load_state c m b (buildMessages c (buildPaths c s)) w1))"
  using assms
  by (intro exI[of _ "emit (Access (pages_path (buildPaths c s)))
        (emit (Access (pagemap_path (buildPaths c s)))
        (sendData_int (slot_id s) (sendMessage MSGN_SAVESTATE_INDEX w)))"])
     (auto simp add: load_def Let_def split_beta access_ok_def)

lemma load_present_code:
  assumes "disk w (pagemap_path (buildPaths c s)) \<noteq> None"
    and "disk w (pages_path (buildPaths c s)) \<noteq> None"
  shows "fst (load c m b s w) =
     (if recording (sc (config c)) = RECORDING_READ \<and> \<not> b
      then (if fst (loadInputs (movie_path (buildPaths c s)) new_movie w) < 0 then ENOMOVIE
            else if \<not> isPrefix m (fst (snd (loadInputs (movie_path (buildPaths c s)) new_movie w)))
            then EINPUTMISMATCH
            else RET_0)
      else RET_0)"
proof -
  from load_present[OF assms, of m b] obtain w1 where
    d: "disk w1 = disk w" and
    l: "load c m b s w = (fst (load_state c m b (buildMessages c (buildPaths c s)) w1),
          buildMessages c (buildPaths c s),
          snd (load_state c m b (buildMessages c (buildPaths c s)) w1))"
    by blast
  show ?thesis
    unfolding l fst_conv load_state_code
    using loadInputs_disk[OF d] by simp
qed

lemma load_present_events:
  assumes "disk w (pagemap_path (buildPaths c s)) \<noteq> None"
    and "disk w (pages_path (buildPaths c s)) \<noteq> None"
  shows "emitted w (snd (snd (load c m b s w))) =
     [SendMessage MSGN_SAVESTATE_INDEX, SendData_int (slot_id s),
      Access (pagemap_path (buildPaths c s)), Access (pages_path (buildPaths c s))] @
     (if \<not> ss_ram (sc (config c))
      then [SendMessage MSGN_SAVESTATE_PATH, SendString (path (buildPaths c s))]
      else []) @
     (if recording (sc (config c)) = RECORDING_READ \<and> \<not> b
      then LoadInputs (movie_path (buildPaths c s)) #
           (if fst (load c m b s w) = EINPUTMISMATCH \<and> osd_messages (sc (config c))
            then [SendMessage MSGN_OSD_MSG, SendString ''Savestate inputs mismatch'']
            else [])
      else []) @
     (if fst (load c m b s w) = RET_0
      then (if osd_messages (sc (config c))
            then [SendMessage MSGN_OSD_MSG,
                  SendString (loading_msg (buildMessages c (buildPaths c s)))]
            else [])
           @ [SendMessage MSGN_LOADSTATE]
      else [])"
proof -
  let ?s = "buildMessages c (buildPaths c s)"
  from load_present[OF assms, of m b] obtain w1 where
    t: "trace w1 = trace w @ [SendMessage MSGN_SAVESTATE_INDEX, SendData_int (slot_id s),
          Access (pagemap_path (buildPaths c s)), Access (pages_path (buildPaths c s))]" and
    l: "load c m b s w = (fst (load_state c m b ?s w1), ?s, snd (load_state c m b ?s w1))"
    by blast
  have 1: "prefix (trace w) (trace w1)" by (simp add: t)
  have 2: "emitted w (snd (load_state c m b ?s w1)) =
             emitted w w1 @ emitted w1 (snd (load_state c m b ?s w1))"
    using 1 load_state_prefix by (rule emitted_trans)
  show ?thesis
    unfolding l fst_conv snd_conv 2 load_state_events
    by (simp add: emitted_append[OF t])
qed

subsection \<open>save\<close>

lemma save_events:
  "emitted w (snd (snd (save c m s w))) =
     (if recording (sc (config c)) \<noteq> NO_RECORDING
      then [SaveMovie (movie_path (buildPaths c s)) (framecount c) (input_list m)] else []) @
     [SendMessage MSGN_SAVESTATE_INDEX, SendData_int (slot_id s)] @
     (if \<not> ss_ram (sc (config c))
      then [SendMessage MSGN_SAVESTATE_PATH, SendString (path (buildPaths c s))]
      else [CreateFile (pagemap_path (buildPaths c s)), CreateFile (pages_path (buildPaths c s))]) @
     (if osd_messages (sc (config c))
      then [SendMessage MSGN_OSD_MSG, SendString (saving_msg (buildMessages c (buildPaths c s)))]
      else []) @
     [SendMessage MSGN_SAVESTATE] @
     (case fst (save c m s w) of None \<Rightarrow> [] | Some r \<Rightarrow> [ReceiveMessage r])"
  by (simp add: save_def Let_def split_beta emitted_def receiveMessage_trace split: option.splits)

lemma save_disk:
  "disk (snd (snd (save c m s w))) =
     (let d = (if recording (sc (config c)) \<noteq> NO_RECORDING
               then (disk w)(movie_path (buildPaths c s) \<mapsto> MovieData (input_list m) (framecount c))
               else disk w)
      in if \<not> ss_ram (sc (config c)) then d
         else d(pagemap_path (buildPaths c s) \<mapsto> Raw, pages_path (buildPaths c s) \<mapsto> Raw))"
  by (simp add: save_def Let_def split_beta split: option.splits)

subsection \<open>postLoad\<close>

lemma rft_elim:
  assumes "receive_framecount_time c w = (ok, c', w')"
  shows "rerecord_count c' = rerecord_count c" "config c' = config c"
    "prefix (trace w) (trace w')" "SendMessage x \<notin> set (emitted w w')"
  using assms
  by (auto simp add: receive_framecount_time_def receiveData_def emitted_def
        split: list.splits packet.splits)

lemma update_movie_time_rerecord [simp]:
  "rerecord_count (update_movie_time c) = rerecord_count c"
  by (simp add: update_movie_time_def Let_def)

lemma postLoad_didLoad_state:
  "rerecord_count (fst (snd (postLoad_didLoad c m b s w))) =
     rerecord_count c + (if modifiedSinceLastStateLoad m then 1 else 0)"
  "modifiedSinceLastStateLoad (fst (snd (snd (postLoad_didLoad c m b s w)))) = False"
  by (simp_all add: postLoad_didLoad_def Let_def split_beta)

lemma postLoad_didLoad_events:
  "prefix (trace w) (trace (snd (snd (snd (postLoad_didLoad c m b s w)))))"
  "SendMessage MSGN_EXPOSE \<notin> set (emitted w (snd (snd (snd (postLoad_didLoad c m b s w)))))"
  by (simp_all add: postLoad_didLoad_def Let_def split_beta emitted_def receiveMessage_trace
        split: option.splits)

lemma postLoad_finish_state:
  "rerecord_count (fst (snd (postLoad_finish d msg c m s w))) = rerecord_count c"
  "fst (snd (snd (postLoad_finish d msg c m s w))) = m"
  by (auto simp add: postLoad_finish_def Let_def rft_elim
        split: option.splits prod.splits bool.splits)

lemma postLoad_finish_prefix:
  "prefix (trace w) (trace (snd (snd (snd (postLoad_finish d msg c m s w)))))"
  by (auto simp add: postLoad_finish_def Let_def split: option.splits prod.splits bool.splits
        dest: rft_elim(3) intro: prefix_order.trans)

lemma postLoad_finish_expose:
  assumes "fst (postLoad_finish d msg c m s w) = Some r" "r \<noteq> ENOLOAD"
  shows "last (emitted w (snd (snd (snd (postLoad_finish d msg c m s w))))) = SendMessage MSGN_EXPOSE"
    "emitted w (snd (snd (snd (postLoad_finish d msg c m s w)))) \<noteq> []"
    "r = (if d then RET_MSG MSGB_LOADING_SUCCEEDED else RET_0)"
  using assms
  by (auto simp add: postLoad_finish_def Let_def emitted_def prefix_def
        split: option.splits prod.splits bool.splits if_splits dest!: rft_elim(3))

lemma postLoad_finish_no_expose:
  assumes "fst (postLoad_finish d msg c m s w) \<noteq> Some (RET_MSG MSGB_LOADING_SUCCEEDED)"
    "fst (postLoad_finish d msg c m s w) \<noteq> Some RET_0"
  shows "SendMessage MSGN_EXPOSE \<notin> set (emitted w (snd (snd (snd (postLoad_finish d msg c m s w)))))"
  using assms
  by (auto simp add: postLoad_finish_def Let_def emitted_def
        split: option.splits prod.splits bool.splits if_splits
        dest: rft_elim(4)[where x = MSGN_EXPOSE])

text \<open>
  The ways through the first \<^verbatim>\<open>receiveMessage\<close> of \<^verbatim>\<open>postLoad\<close>: nothing arrives, a message
  other than \<^verbatim>\<open>MSGB_LOADING_SUCCEEDED\<close> arrives, or that one does.
\<close>

lemma postLoad_blocked:
  assumes "fst (receiveMessage w) = None"
  shows "postLoad c m b s w = (None, c, m, w)"
  using assms receiveMessage_cases[of w] by (auto simp add: postLoad_def)

lemma postLoad_not_loaded:
  assumes "inbox w = Message x # rest" "x \<noteq> MSGB_LOADING_SUCCEEDED"
  shows "postLoad c m b s w =
           postLoad_finish False (Some x) c m s (emit (ReceiveMessage x) (w\<lparr>inbox := rest\<rparr>))"
  using assms by (simp add: postLoad_def receiveMessage_def)

lemma postLoad_loaded:
  assumes "inbox w = Message MSGB_LOADING_SUCCEEDED # rest"
  shows "postLoad c m b s w =
     (case postLoad_didLoad c m b s (emit (ReceiveMessage MSGB_LOADING_SUCCEEDED) (w\<lparr>inbox := rest\<rparr>)) of
        (msg, c1, m1, w2) \<Rightarrow> postLoad_finish True msg c1 m1 s w2)"
  using assms by (simp add: postLoad_def receiveMessage_def)

lemma postLoad_state:
  "rerecord_count (fst (snd (postLoad c m b s w))) =
     rerecord_count c + (if succeeded (inbox w) \<and> modifiedSinceLastStateLoad m then 1 else 0)"
  "modifiedSinceLastStateLoad (fst (snd (snd (postLoad c m b s w)))) =
     (modifiedSinceLastStateLoad m \<and> \<not> succeeded (inbox w))"
proof -
  consider (blocked) "fst (receiveMessage w) = None" "\<not> succeeded (inbox w)"
    | (other) x rest where "inbox w = Message x # rest" "x \<noteq> MSGB_LOADING_SUCCEEDED"
    | (loaded) rest where "inbox w = Message MSGB_LOADING_SUCCEEDED # rest"
    using receiveMessage_cases[of w] receiveMessage_succeeded[of w] by (cases "succeeded (inbox w)") auto
  then have "rerecord_count (fst (snd (postLoad c m b s w))) =
     rerecord_count c + (if succeeded (inbox w) \<and> modifiedSinceLastStateLoad m then 1 else 0)
    \<and> modifiedSinceLastStateLoad (fst (snd (snd (postLoad c m b s w)))) =
     (modifiedSinceLastStateLoad m \<and> \<not> succeeded (inbox w))"
  proof cases
    case blocked
    then show ?thesis by (simp add: postLoad_blocked)
  next
    case other
    then show ?thesis by (simp add: postLoad_not_loaded postLoad_finish_state)
  next
    case loaded
    then show ?thesis
      using postLoad_didLoad_state[of c m b s "emit (ReceiveMessage MSGB_LOADING_SUCCEEDED) (w\<lparr>inbox := rest\<rparr>)"]
      by (simp add: postLoad_loaded postLoad_finish_state split_beta)
  qed
  then show "rerecord_count (fst (snd (postLoad c m b s w))) =
     rerecord_count c + (if succeeded (inbox w) \<and> modifiedSinceLastStateLoad m then 1 else 0)"
    and "modifiedSinceLastStateLoad (fst (snd (snd (postLoad c m b s w)))) =
     (modifiedSinceLastStateLoad m \<and> \<not> succeeded (inbox w))"
    by simp_all
qed

lemma postLoad_events:
  assumes "fst (postLoad c m b s w) = Some r"
  shows "r \<noteq> ENOLOAD \<Longrightarrow> emitted w (snd (snd (snd (postLoad c m b s w)))) \<noteq> []"
    and "r \<noteq> ENOLOAD \<Longrightarrow>
           last (emitted w (snd (snd (snd (postLoad c m b s w))))) = SendMessage MSGN_EXPOSE"
    and "r \<noteq> ENOLOAD \<Longrightarrow>
           r = (if succeeded (inbox w) then RET_MSG MSGB_LOADING_SUCCEEDED else RET_0)"
    and "r = ENOLOAD \<Longrightarrow>
           SendMessage MSGN_EXPOSE \<notin> set (emitted w (snd (snd (snd (postLoad c m b s w)))))"
proof -
  consider (blocked) "fst (receiveMessage w) = None"
    | (other) x rest where "inbox w = Message x # rest" "x \<noteq> MSGB_LOADING_SUCCEEDED"
    | (loaded) rest where "inbox w = Message MSGB_LOADING_SUCCEEDED # rest"
    using receiveMessage_cases[of w] by (cases "fst (receiveMessage w)") auto
  then have "(r \<noteq> ENOLOAD \<longrightarrow>
       emitted w (snd (snd (snd (postLoad c m b s w)))) \<noteq> []
       \<and> last (emitted w (snd (snd (snd (postLoad c m b s w))))) = SendMessage MSGN_EXPOSE
       \<and> r = (if succeeded (inbox w) then RET_MSG MSGB_LOADING_SUCCEEDED else RET_0))
     \<and> (r = ENOLOAD \<longrightarrow>
       SendMessage MSGN_EXPOSE \<notin> set (emitted w (snd (snd (snd (postLoad c m b s w))))))"
  proof cases
    case blocked
    with assms show ?thesis by (simp add: postLoad_blocked)
  next
    case other
    define w1 where "w1 = emit (ReceiveMessage x) (w\<lparr>inbox := rest\<rparr>)"
    define res where "res = postLoad_finish False (Some x) c m s w1"
    have p: "postLoad c m b s w = res"
      by (simp add: postLoad_not_loaded[OF other] res_def w1_def)
    have r: "fst res = Some r" using assms p by simp
    have 1: "prefix (trace w) (trace w1)" and e1: "emitted w w1 = [ReceiveMessage x]"
      by (simp_all add: w1_def emitted_def)
    have 2: "prefix (trace w1) (trace (snd (snd (snd res))))"
      unfolding res_def by (rule postLoad_finish_prefix)
    show ?thesis
    proof (cases "r = ENOLOAD")
      case True
      then have "SendMessage MSGN_EXPOSE \<notin> set (emitted w1 (snd (snd (snd res))))"
        using r unfolding res_def by (intro postLoad_finish_no_expose) simp_all
      then show ?thesis using True by (simp add: p emitted_set[OF 1 2] e1)
    next
      case False
      from postLoad_finish_expose[OF r[unfolded res_def] False]
      have "last (emitted w1 (snd (snd (snd res)))) = SendMessage MSGN_EXPOSE"
        "emitted w1 (snd (snd (snd res))) \<noteq> []"
        "r = RET_0"
        by (simp_all add: res_def)
      then show ?thesis using False other
        by (simp add: p emitted_last[OF 1 2])
    qed
  next
    case loaded
    define w1 where "w1 = emit (ReceiveMessage MSGB_LOADING_SUCCEEDED) (w\<lparr>inbox := rest\<rparr>)"
    define mid where "mid = postLoad_didLoad c m b s w1"
    define w2 where "w2 = snd (snd (snd mid))"
    define res where "res = postLoad_finish True (fst mid) (fst (snd mid)) (fst (snd (snd mid))) s w2"
    have p: "postLoad c m b s w = res"
      by (simp add: postLoad_loaded[OF loaded] res_def mid_def w1_def w2_def split_beta)
    have r: "fst res = Some r" using assms p by simp
    have 1: "prefix (trace w) (trace w1)" and e1: "emitted w w1 = [ReceiveMessage MSGB_LOADING_SUCCEEDED]"
      by (simp_all add: w1_def emitted_def)
    have 2: "prefix (trace w1) (trace w2)"
      and e2: "SendMessage MSGN_EXPOSE \<notin> set (emitted w1 w2)"
      unfolding w2_def mid_def by (rule postLoad_didLoad_events)+
    have 3: "prefix (trace w2) (trace (snd (snd (snd res))))"
      unfolding res_def by (rule postLoad_finish_prefix)
    have 12: "prefix (trace w) (trace w2)" using 1 2 by (rule prefix_order.trans)
    have e12: "SendMessage MSGN_EXPOSE \<notin> set (emitted w w2)"
      using e2 by (simp add: emitted_set[OF 1 2] e1)
    show ?thesis
    proof (cases "r = ENOLOAD")
      case True
      then have "SendMessage MSGN_EXPOSE \<notin> set (emitted w2 (snd (snd (snd res))))"
        using r unfolding res_def by (intro postLoad_finish_no_expose) simp_all
      then show ?thesis using True e12 by (simp add: p emitted_set[OF 12 3])
    next
      case False
      from postLoad_finish_expose[OF r[unfolded res_def] False]
      have "last (emitted w2 (snd (snd (snd res)))) = SendMessage MSGN_EXPOSE"
        "emitted w2 (snd (snd (snd res))) \<noteq> []"
        "r = RET_MSG MSGB_LOADING_SUCCEEDED"
        by (simp_all add: res_def)
      then show ?thesis using False loaded
        by (simp add: p emitted_last[OF 12 3])
    qed
  qed
  then show "r \<noteq> ENOLOAD \<Longrightarrow> emitted w (snd (snd (snd (postLoad c m b s w)))) \<noteq> []"
    and "r \<noteq> ENOLOAD \<Longrightarrow>
           last (emitted w (snd (snd (snd (postLoad c m b s w))))) = SendMessage MSGN_EXPOSE"
    and "r \<noteq> ENOLOAD \<Longrightarrow>
           r = (if succeeded (inbox w) then RET_MSG MSGB_LOADING_SUCCEEDED else RET_0)"
    and "r = ENOLOAD \<Longrightarrow>
           SendMessage MSGN_EXPOSE \<notin> set (emitted w (snd (snd (snd (postLoad c m b s w)))))"
    by simp_all
qed

text \<open>
  What \<^verbatim>\<open>postLoad\<close> returns for what the channel holds: \<^verbatim>\<open>ENOLOAD\<close> when the message in
  the place of the frame count report is another one, and only then; 0 or
  \<^verbatim>\<open>MSGB_LOADING_SUCCEEDED\<close> when the report and its three values are there.
\<close>

lemma postLoad_didLoad_message:
  assumes "inbox w = Message y # rest"
  shows "fst (postLoad_didLoad c m b s w) = Some y"
  using assms
  by (simp add: postLoad_didLoad_def Let_def split_beta receiveMessage_def)

lemma postLoad_didLoad_inbox:
  assumes "inbox w = Message y # rest"
  shows "inbox (snd (snd (snd (postLoad_didLoad c m b s w)))) = rest"
  using assms
  by (simp add: postLoad_didLoad_def Let_def split_beta receiveMessage_def)

lemma postLoad_finish_wrong:
  assumes "x \<noteq> MSGB_FRAMECOUNT_TIME"
  shows "fst (postLoad_finish d (Some x) c m s w) = Some ENOLOAD"
  using assms by (simp add: postLoad_finish_def)

lemma postLoad_finish_report:
  assumes "inbox w = Data64 d1 # Data64 d2 # Data64 d3 # rest"
  shows "fst (postLoad_finish d (Some MSGB_FRAMECOUNT_TIME) c m s w) =
           Some (if d then RET_MSG MSGB_LOADING_SUCCEEDED else RET_0)"
  using assms
  by (simp add: postLoad_finish_def receive_framecount_time_def receiveData_def Let_def)

lemma postLoad_wrong_first:
  assumes "inbox w = Message x # rest" "x \<noteq> MSGB_LOADING_SUCCEEDED" "x \<noteq> MSGB_FRAMECOUNT_TIME"
  shows "fst (postLoad c m b s w) = Some ENOLOAD"
  using assms by (simp add: postLoad_not_loaded postLoad_finish_wrong)

lemma postLoad_wrong_second:
  assumes "inbox w = Message MSGB_LOADING_SUCCEEDED # Message y # rest" "y \<noteq> MSGB_FRAMECOUNT_TIME"
  shows "fst (postLoad c m b s w) = Some ENOLOAD"
proof -
  define w1 where "w1 = emit (ReceiveMessage MSGB_LOADING_SUCCEEDED) (w\<lparr>inbox := Message y # rest\<rparr>)"
  have i: "inbox w1 = Message y # rest" by (simp add: w1_def)
  have "postLoad c m b s w =
     (case postLoad_didLoad c m b s w1 of
        (msg, c1, m1, w2) \<Rightarrow> postLoad_finish True msg c1 m1 s w2)"
    unfolding w1_def by (rule postLoad_loaded[OF assms(1)])
  then show ?thesis
    using postLoad_didLoad_message[OF i, of c m b s] assms(2)
    by (simp add: split_beta postLoad_finish_wrong)
qed

lemma postLoad_report_first:
  assumes "inbox w = Message MSGB_FRAMECOUNT_TIME # Data64 d1 # Data64 d2 # Data64 d3 # rest"
  shows "fst (postLoad c m b s w) = Some RET_0"
proof -
  have "fst (postLoad_finish False (Some MSGB_FRAMECOUNT_TIME) c m s
          (emit (ReceiveMessage MSGB_FRAMECOUNT_TIME) (w\<lparr>inbox := Data64 d1 # Data64 d2 # Data64 d3 # rest\<rparr>)))
        = Some RET_0"
    by (subst postLoad_finish_report[where ?d1.0 = d1 and ?d2.0 = d2 and ?d3.0 = d3 and rest = rest]) simp_all
  then show ?thesis
    by (simp add: postLoad_not_loaded[OF assms])
qed

lemma postLoad_report_second:
  assumes "inbox w = Message MSGB_LOADING_SUCCEEDED # Message MSGB_FRAMECOUNT_TIME
                      # Data64 d1 # Data64 d2 # Data64 d3 # rest"
  shows "fst (postLoad c m b s w) = Some (RET_MSG MSGB_LOADING_SUCCEEDED)"
proof -
  define w1 where "w1 = emit (ReceiveMessage MSGB_LOADING_SUCCEEDED)
      (w\<lparr>inbox := Message MSGB_FRAMECOUNT_TIME # Data64 d1 # Data64 d2 # Data64 d3 # rest\<rparr>)"
  have i: "inbox w1 = Message MSGB_FRAMECOUNT_TIME # Data64 d1 # Data64 d2 # Data64 d3 # rest"
    by (simp add: w1_def)
  have p: "postLoad c m b s w =
     (case postLoad_didLoad c m b s w1 of
        (msg, c1, m1, w2) \<Rightarrow> postLoad_finish True msg c1 m1 s w2)"
    unfolding w1_def by (rule postLoad_loaded[OF assms(1)])
  show ?thesis
    unfolding p split_beta postLoad_didLoad_message[OF i]
    by (subst postLoad_finish_report[OF postLoad_didLoad_inbox[OF i]]) simp
qed

lemma postLoad_ENOLOAD_only:
  assumes "fst (postLoad c m b s w) = Some ENOLOAD"
  shows "(\<exists>x rest. inbox w = Message x # rest \<and> x \<noteq> MSGB_LOADING_SUCCEEDED \<and> x \<noteq> MSGB_FRAMECOUNT_TIME)
       \<or> (\<exists>y rest. inbox w = Message MSGB_LOADING_SUCCEEDED # Message y # rest \<and> y \<noteq> MSGB_FRAMECOUNT_TIME)"
proof -
  consider (blocked) "fst (receiveMessage w) = None"
    | (other) x rest where "inbox w = Message x # rest" "x \<noteq> MSGB_LOADING_SUCCEEDED"
    | (loaded) rest where "inbox w = Message MSGB_LOADING_SUCCEEDED # rest"
    using receiveMessage_cases[of w] by (cases "fst (receiveMessage w)") auto
  then show ?thesis
  proof cases
    case blocked
    with assms show ?thesis by (simp add: postLoad_blocked)
  next
    case other
    have "x \<noteq> MSGB_FRAMECOUNT_TIME"
    proof
      assume "x = MSGB_FRAMECOUNT_TIME"
      then have "fst (postLoad c m b s w) \<noteq> Some ENOLOAD"
        using other
        by (auto simp add: postLoad_not_loaded postLoad_finish_def Let_def
              split: prod.splits bool.splits)
      with assms show False by simp
    qed
    with other show ?thesis by simp
  next
    case loaded
    define w1 where "w1 = emit (ReceiveMessage MSGB_LOADING_SUCCEEDED) (w\<lparr>inbox := rest\<rparr>)"
    have i: "inbox w1 = rest" by (simp add: w1_def)
    have p: "postLoad c m b s w =
       (case postLoad_didLoad c m b s w1 of
          (msg, c1, m1, w2) \<Rightarrow> postLoad_finish True msg c1 m1 s w2)"
      unfolding w1_def by (rule postLoad_loaded[OF loaded])
    have d: "fst (postLoad_didLoad c m b s w1) =
               (case rest of Message y # r \<Rightarrow> Some y | _ \<Rightarrow> None)"
      using i
      by (simp add: postLoad_didLoad_def Let_def split_beta receiveMessage_def
            split: list.splits packet.splits)
    have "\<exists>y r. rest = Message y # r \<and> y \<noteq> MSGB_FRAMECOUNT_TIME"
      using assms unfolding p split_beta
      by (auto simp add: d postLoad_finish_def Let_def
            split: list.splits packet.splits prod.splits bool.splits if_splits)
    with loaded show ?thesis by simp
  qed
qed

subsection \<open>Sequences of operations\<close>

lemma step_state:
  "rerecord_count (fst (step x (c, m, w))) =
     rerecord_count c + of_nat (rerecords (modifiedSinceLastStateLoad m) [x])"
  "modifiedSinceLastStateLoad (fst (snd (step x (c, m, w)))) = dirty_after (modifiedSinceLastStateLoad m) [x]"
  by (cases x; simp add: postLoad_state edit_def)+

lemma rerecords_Cons:
  "rerecords d (x # xs) = rerecords d [x] + rerecords (dirty_after d [x]) xs"
  "dirty_after d (x # xs) = dirty_after (dirty_after d [x]) xs"
  by (cases x; simp)+

section \<open>Facts about the interceptor\<close>

lemma log_call_simps [simp]:
  "calls (log_call k st) = calls st @ [k]"
  "library_set (log_call k st) = library_set st"
  "recurs_count (log_call k st) = recurs_count st"
  "native (log_call k st) = native st"
  "safe (log_call k st) = safe st"
  "orig_dlsym (log_call k st) = orig_dlsym st"
  "orig_dlopen (log_call k st) = orig_dlopen st"
  by (simp_all add: log_call_def)

lemma add_lib_simps [simp]:
  "calls (add_lib f st) = calls st"
  "recurs_count (add_lib f st) = recurs_count st"
  "native (add_lib f st) = native st"
  "library_set (add_lib f st) =
     (case f of None \<Rightarrow> library_set st | Some l \<Rightarrow> finsert l (library_set st))"
  by (simp_all add: add_lib_def split: option.splits)

lemma dlopen_keeps [simp]:
  "recurs_count (snd (dlopen ld f mode st)) = recurs_count st"
  "native (snd (dlopen ld f mode st)) = native st"
  by (simp_all add: dlopen_def Let_def split_beta call_orig_dlopen_def bootstrap_def)

lemma dlopen_denied:
  assumes "\<not> native st"
    and "file_contains f ''libpulse'' \<or> file_contains f ''ScreenSelector.so''"
  shows "fst (dlopen ld f mode st) = nullptr"
    and "library_set (snd (dlopen ld f mode st)) = library_set st"
  using assms by (auto simp add: dlopen_def Let_def split_beta bootstrap_def)

lemma dlopen_loaded:
  assumes "\<not> native st"
    and "\<not> file_contains f ''libpulse''" and "\<not> file_contains f ''ScreenSelector.so''"
  shows "fst (dlopen ld f mode st) = real_dlopen ld f mode"
    and "library_set (snd (dlopen ld f mode st)) =
           (if real_dlopen ld f mode \<noteq> nullptr
            then (case f of None \<Rightarrow> library_set st | Some l \<Rightarrow> finsert l (library_set st))
            else library_set st)"
  using assms
  by (cases f; auto simp add: dlopen_def Let_def split_beta bootstrap_def call_orig_dlopen_def)+

lemma dlsym_enter_simps [simp]:
  "recurs_count (dlsym_enter ld st) = recurs_count st + 1"
  "safe (dlsym_enter ld st) = (0 < recurs_count st)"
  "native (dlsym_enter ld st) = native st"
  "library_set (dlsym_enter ld st) = library_set st"
  "calls (dlsym_enter ld st) =
     calls st @ (if orig_dlsym st = nullptr then [Call_bootstrap ''dlsym''] else [])"
  by (simp_all add: dlsym_enter_def Let_def bootstrap_def)

lemma find_sym_keeps [simp]:
  "recurs_count (snd (find_sym ld name original st)) = recurs_count st"
  "native (snd (find_sym ld name original st)) = native st"
  by (simp_all add: find_sym_def call_orig_dlsym_def Let_def split_beta split: option.splits)

lemma dlsym_lookup_count [simp]:
  "recurs_count (snd (dlsym_lookup ld handle name st)) = recurs_count st - 1"
  by (simp add: dlsym_lookup_def Let_def split_beta call_orig_dlsym_def)

lemma dlsym_rtld_next_count:
  "recurs_count (snd (dlsym_rtld_next ld name st)) =
     (if fst (dlsym_rtld_next ld name st) = None then recurs_count st else recurs_count st - 1)"
  by (simp add: dlsym_rtld_next_def Let_def split_beta call_orig_dlsym_def)

lemma dlsym_body_count: "recurs_count (snd (dlsym_body ld handle name st)) = recurs_count st - 1"
proof (cases "handle = RTLD_NEXT")
  case True
  show ?thesis
  proof (cases "dlsym_rtld_next ld name st")
    case (Pair r st1)
    then show ?thesis
      using True dlsym_rtld_next_count[of ld name st]
      by (cases r)
         (simp_all add: dlsym_body_def Let_def split_beta call_dl_sym_def call_orig_dlsym_def)
  qed
next
  case False
  then show ?thesis
    by (simp add: dlsym_body_def Let_def split_beta call_dl_sym_def call_orig_dlsym_def)
qed

lemma dlsym_count: "recurs_count (snd (dlsym ld handle name st)) = recurs_count st"
  by (simp add: dlsym_def dlsym_body_count)

lemma dlsym_all_count: "recurs_count (dlsym_all ld rs st) = recurs_count st"
  by (induction rs arbitrary: st) (auto simp: dlsym_count)

lemma dlsym_self:
  assumes "\<not> native st" and "name = ''dlopen'' \<or> name = ''dlsym''"
  shows "fst (dlsym ld handle name st) =
           (if name = ''dlopen'' then dlopen_wrapper ld else dlsym_wrapper ld)"
    and "new_calls st (snd (dlsym ld handle name st)) =
           (if orig_dlsym st = nullptr then [Call_bootstrap ''dlsym''] else [])"
    and "library_set (snd (dlsym ld handle name st)) = library_set st"
  using assms by (auto simp add: dlsym_def dlsym_body_def new_calls_def)

lemma dlsym_native:
  assumes "native st"
  shows "fst (dlsym ld handle name st) =
           (if 0 < recurs_count st then dl_sym ld handle name
            else fst (real_dlsym ld handle name))"
    and "new_calls st (snd (dlsym ld handle name st)) =
           (if orig_dlsym st = nullptr then [Call_bootstrap ''dlsym''] else []) @
           [if 0 < recurs_count st then Call_dl_sym handle name else Call_orig_dlsym handle name]"
  using assms
  by (auto simp add: dlsym_def dlsym_body_def new_calls_def call_dl_sym_def call_orig_dlsym_def
        split_beta)

section \<open>Evaluation on the concrete inputs\<close>

text \<open>
  The definitions that a run on a concrete input unfolds, and the paths and the traces of
  slot 2.
\<close>

lemmas world_defs = emit_def sendMessage_def sendData_int_def sendData_config_def sendString_def
  receiveMessage_def receiveData_def access_ok_def create_empty_def saveMovie_def loadInputs_def
  new_movie_def emitted_def

lemmas slot_defs = buildPaths_def buildMessages_def to_string_def string_of_nat.simps
  digit_char_def Let_def

lemmas load_defs = load_def load_state_def load_no_state_def load_check_prefix_def
  recording_and_movie_file_def isPrefix_def isPrefix_upto_def

lemmas slot_2_defs = context_500_def config_read_def slot_2_def world_slot_2_def disk_slot_2_def
  live_movie_def

lemmas postLoad_defs = postLoad_def postLoad_didLoad_def postLoad_finish_def
  receive_framecount_time_def update_movie_time_def

lemmas dl_defs = dlsym_def dlsym_enter_def dlsym_body_def dlsym_lookup_def dlsym_rtld_next_def
  find_sym_def dlopen_def add_lib_def bootstrap_def call_dl_sym_def call_orig_dlsym_def
  call_orig_dlopen_def log_call_def new_calls_def file_contains_def nullptr_def RTLD_NEXT_def
  RTLD_DEFAULT_def RTLD_LAZY_def loader_0_def dlstate_0_def Let_def

lemma slot_2_paths:
  "pagemap_path (buildPaths context_500 slot_2) = ''/tmp/states/game.state2.pm''"
  "pages_path (buildPaths context_500 slot_2) = ''/tmp/states/game.state2.p''"
  "movie_path (buildPaths context_500 slot_2) = ''/tmp/states/game.movie2.ltm''"
  by (simp_all add: slot_defs context_500_def slot_2_def)

lemma slot_2_load_trace:
  "trace (snd (snd (load context_500 live_movie False slot_2 world_slot_2))) =
    [SendMessage MSGN_SAVESTATE_INDEX, SendData_int 2,
     Access ''/tmp/states/game.state2.pm'', Access ''/tmp/states/game.state2.p'',
     SendMessage MSGN_SAVESTATE_PATH, SendString ''/tmp/states/game.state2'',
     LoadInputs ''/tmp/states/game.movie2.ltm'',
     SendMessage MSGN_OSD_MSG, SendString ''Loading state 2'',
     SendMessage MSGN_LOADSTATE]"
  by (simp add: load_defs world_defs slot_defs slot_2_defs)

lemma save_write_trace:
  "trace (snd (snd (save context_write live_movie slot_2 world_saved))) =
     [SaveMovie ''/tmp/states/game.movie2.ltm'' 500 [''U'', ''U'', ''D'', ''D'', ''L''],
      SendMessage MSGN_SAVESTATE_INDEX, SendData_int 2,
      SendMessage MSGN_SAVESTATE_PATH, SendString ''/tmp/states/game.state2'',
      SendMessage MSGN_OSD_MSG, SendString ''Saving state 2'',
      SendMessage MSGN_SAVESTATE, ReceiveMessage MSGB_SAVING_SUCCEEDED]"
  by (simp add: save_def world_defs slot_defs slot_2_defs context_write_def world_saved_def)

section \<open>The claims\<close>

subsection \<open>C1: the check of a load in read mode\<close>

text \<open>
  Claim C1, with the two movies in the order the code has them. When both snapshot files
  of the slot exist, a load in read mode that is no branch loads the movie of the slot and
  asks \<^verbatim>\<open>movie.isPrefix(savedmovie)\<close>, whether the movie of the slot is a prefix of the current
  movie. It returns \<^verbatim>\<open>ENOMOVIE\<close> when the movie of the slot cannot be loaded,
  \<^verbatim>\<open>EINPUTMISMATCH\<close> when the check fails and 0 when it passes. The load-state message is
  sent exactly when 0 is returned. A branch, and a load in another mode, returns 0 and does
  not load the movie of the slot: no check is made.
\<close>

theorem load_read_check:
  assumes "disk w (pagemap_path (buildPaths c s)) \<noteq> None"
    and "disk w (pages_path (buildPaths c s)) \<noteq> None"
  shows "fst (load c m b s w) =
     (if recording (sc (config c)) = RECORDING_READ \<and> \<not> b
      then (if fst (loadInputs (movie_path (buildPaths c s)) new_movie w) < 0 then ENOMOVIE
            else if \<not> isPrefix m (fst (snd (loadInputs (movie_path (buildPaths c s)) new_movie w)))
            then EINPUTMISMATCH
            else RET_0)
      else RET_0)
    \<and> (SendMessage MSGN_LOADSTATE \<in> set (emitted w (snd (snd (load c m b s w)))))
        = (fst (load c m b s w) = RET_0)
    \<and> (LoadInputs (movie_path (buildPaths c s)) \<in> set (emitted w (snd (snd (load c m b s w)))))
        = (recording (sc (config c)) = RECORDING_READ \<and> \<not> b)"
  unfolding load_present_events[OF assms]
  by (simp add: load_present_code[OF assms])

text \<open>
  On slot 2, whose movie is U, U, D, D: the current movie U, U, D, D, L extends it and is
  loaded; the current movie U, U does not, and is refused with no load-state message,
  unless the load is a branch.
\<close>

theorem load_read_check_witness:
  "disk world_slot_2 (pagemap_path (buildPaths context_500 slot_2)) \<noteq> None
   \<and> disk world_slot_2 (pages_path (buildPaths context_500 slot_2)) \<noteq> None
   \<and> recording (sc (config context_500)) = RECORDING_READ
   \<and> isPrefix live_movie slot_2_movie
   \<and> fst (load context_500 live_movie False slot_2 world_slot_2) = RET_0
   \<and> SendMessage MSGN_LOADSTATE
        \<in> set (emitted world_slot_2 (snd (snd (load context_500 live_movie False slot_2 world_slot_2))))
   \<and> \<not> isPrefix short_movie slot_2_movie
   \<and> fst (load context_500 short_movie False slot_2 world_slot_2) = EINPUTMISMATCH
   \<and> SendMessage MSGN_LOADSTATE
        \<notin> set (emitted world_slot_2 (snd (snd (load context_500 short_movie False slot_2 world_slot_2))))
   \<and> fst (load context_500 short_movie True slot_2 world_slot_2) = RET_0
   \<and> LoadInputs ''/tmp/states/game.movie2.ltm''
        \<notin> set (emitted world_slot_2 (snd (snd (load context_500 short_movie True slot_2 world_slot_2))))"
proof -
  have 1: "disk world_slot_2 (pagemap_path (buildPaths context_500 slot_2)) \<noteq> None"
    by (simp add: slot_2_paths world_slot_2_def disk_slot_2_def)
  have 2: "disk world_slot_2 (pages_path (buildPaths context_500 slot_2)) \<noteq> None"
    by (simp add: slot_2_paths world_slot_2_def disk_slot_2_def)
  have 3: "recording (sc (config context_500)) = RECORDING_READ"
    by (simp add: context_500_def config_read_def)
  have 4: "loadInputs ''/tmp/states/game.movie2.ltm'' new_movie world_slot_2 =
           (0, slot_2_movie, emit (LoadInputs ''/tmp/states/game.movie2.ltm'') world_slot_2)"
    by (simp add: loadInputs_def new_movie_def slot_2_movie_def world_slot_2_def disk_slot_2_def)
  have 5: "isPrefix live_movie slot_2_movie" "\<not> isPrefix short_movie slot_2_movie"
    by (simp_all add: isPrefix_def live_movie_def slot_2_movie_def short_movie_def)
  show ?thesis
    using load_read_check[OF 1 2, of live_movie False]
      load_read_check[OF 1 2, of short_movie False]
      load_read_check[OF 1 2, of short_movie True]
      1 2 3 4 5
    by (simp add: slot_2_paths)
qed

text \<open>
  Claim C1 as it is worded asks for the current movie to be a prefix of the movie of the
  slot. The code does not ask that: U, U is a prefix of the movie of slot 2 and is refused
  with \<^verbatim>\<open>EINPUTMISMATCH\<close>, and U, U, D, D, L is no prefix of it and is loaded.
\<close>

theorem load_prefix_direction_counterexample:
  "recording (sc (config context_500)) = RECORDING_READ
   \<and> prefix (input_list short_movie) (input_list slot_2_movie)
   \<and> fst (load context_500 short_movie False slot_2 world_slot_2) = EINPUTMISMATCH
   \<and> \<not> prefix (input_list live_movie) (input_list slot_2_movie)
   \<and> fst (load context_500 live_movie False slot_2 world_slot_2) = RET_0
   \<and> last (trace (snd (snd (load context_500 live_movie False slot_2 world_slot_2))))
       = SendMessage MSGN_LOADSTATE"
  by (simp add: load_defs world_defs slot_defs slot_2_defs short_movie_def slot_2_movie_def)

subsection \<open>C2: the scenario of slot 2\<close>

text \<open>
  Claim C2. The movie file of the slot holds U, U, D, D and the current movie is
  U, U, D, D, L. A load in read mode that is no branch loads the movie of the slot from
  its file and checks it against the current movie: the movie of the slot is a prefix of
  the current movie, which has the same first four frames and one more. The load returns
  0, and its effects are the index message and the id, the two tests of the snapshot
  files, the path of the state, the load of the movie of the slot, the message for the
  screen and, last, the load-state message. The outcome hangs on the check: with the same
  slot, a current movie \<open>m'\<close> that the movie of the slot is no prefix of is refused with
  \<^verbatim>\<open>EINPUTMISMATCH\<close> and no load-state message. The frame count stored with the movie of the
  slot and the frame count of the context play no part in the check.
\<close>

theorem load_scenario:
  assumes "recording (sc (config c)) = RECORDING_READ"
    and "disk w (pagemap_path (buildPaths c s)) \<noteq> None"
    and "disk w (pages_path (buildPaths c s)) \<noteq> None"
    and "disk w (movie_path (buildPaths c s)) = Some (MovieData [''U'', ''U'', ''D'', ''D''] n)"
    and "input_list m = [''U'', ''U'', ''D'', ''D'', ''L'']"
  shows "fst (loadInputs (movie_path (buildPaths c s)) new_movie w) = 0
    \<and> input_list (fst (snd (loadInputs (movie_path (buildPaths c s)) new_movie w)))
        = [''U'', ''U'', ''D'', ''D'']
    \<and> isPrefix m (fst (snd (loadInputs (movie_path (buildPaths c s)) new_movie w)))
    \<and> take 4 (input_list m)
        = input_list (fst (snd (loadInputs (movie_path (buildPaths c s)) new_movie w)))
    \<and> fst (load c m False s w) = RET_0
    \<and> emitted w (snd (snd (load c m False s w))) =
        [SendMessage MSGN_SAVESTATE_INDEX, SendData_int (slot_id s),
         Access (pagemap_path (buildPaths c s)), Access (pages_path (buildPaths c s))] @
        (if \<not> ss_ram (sc (config c))
         then [SendMessage MSGN_SAVESTATE_PATH, SendString (path (buildPaths c s))]
         else []) @
        [LoadInputs (movie_path (buildPaths c s))] @
        (if osd_messages (sc (config c))
         then [SendMessage MSGN_OSD_MSG,
               SendString (loading_msg (buildMessages c (buildPaths c s)))]
         else []) @
        [SendMessage MSGN_LOADSTATE]
    \<and> last (emitted w (snd (snd (load c m False s w)))) = SendMessage MSGN_LOADSTATE
    \<and> fst (load c m' False s w) =
        (if prefix [''U'', ''U'', ''D'', ''D''] (input_list m') then RET_0 else EINPUTMISMATCH)
    \<and> (SendMessage MSGN_LOADSTATE \<in> set (emitted w (snd (snd (load c m' False s w)))))
        = prefix [''U'', ''U'', ''D'', ''D''] (input_list m')"
proof -
  have 1: "fst (loadInputs (movie_path (buildPaths c s)) new_movie w) = 0"
    and 2: "input_list (fst (snd (loadInputs (movie_path (buildPaths c s)) new_movie w)))
            = [''U'', ''U'', ''D'', ''D'']"
    using assms(4) by (simp_all add: loadInputs_def)
  have 3: "isPrefix x (fst (snd (loadInputs (movie_path (buildPaths c s)) new_movie w)))
           = prefix [''U'', ''U'', ''D'', ''D''] (input_list x)" for x
    by (simp add: isPrefix_def 2)
  have 4: "prefix [''U'', ''U'', ''D'', ''D''] (input_list m)"
    by (simp add: assms(5))
  have code: "fst (load c x False s w) =
      (if prefix [''U'', ''U'', ''D'', ''D''] (input_list x) then RET_0 else EINPUTMISMATCH)" for x
    by (simp add: load_present_code[OF assms(2,3)] assms(1) 1 3)
  have events: "emitted w (snd (snd (load c m False s w))) =
        [SendMessage MSGN_SAVESTATE_INDEX, SendData_int (slot_id s),
         Access (pagemap_path (buildPaths c s)), Access (pages_path (buildPaths c s))] @
        (if \<not> ss_ram (sc (config c))
         then [SendMessage MSGN_SAVESTATE_PATH, SendString (path (buildPaths c s))]
         else []) @
        [LoadInputs (movie_path (buildPaths c s))] @
        (if osd_messages (sc (config c))
         then [SendMessage MSGN_OSD_MSG,
               SendString (loading_msg (buildMessages c (buildPaths c s)))]
         else []) @
        [SendMessage MSGN_LOADSTATE]"
    unfolding load_present_events[OF assms(2,3)]
    by (simp add: code 4 assms(1))
  have sent: "(SendMessage MSGN_LOADSTATE \<in> set (emitted w (snd (snd (load c m' False s w)))))
        = prefix [''U'', ''U'', ''D'', ''D''] (input_list m')"
    unfolding load_present_events[OF assms(2,3)]
    by (simp add: code)
  have last: "last (emitted w (snd (snd (load c m False s w)))) = SendMessage MSGN_LOADSTATE"
    unfolding events by simp
  have 5: "take 4 (input_list m)
        = input_list (fst (snd (loadInputs (movie_path (buildPaths c s)) new_movie w)))"
    by (simp add: 2 assms(5))
  have pre: "isPrefix m (fst (snd (loadInputs (movie_path (buildPaths c s)) new_movie w)))"
    unfolding 3 by (rule 4)
  have ret: "fst (load c m False s w) = RET_0"
    unfolding code using 4 by simp
  show ?thesis
    by (intro conjI) (fact 1 2 pre 5 ret events last code sent)+
qed

text \<open>
  The scenario itself: slot 2, saved at frame 500, and the context at frame 500. The
  current movie U, U is refused.
\<close>

theorem load_scenario_witness:
  "recording (sc (config context_500)) = RECORDING_READ
   \<and> slot_id slot_2 = 2 \<and> framecount context_500 = 500
   \<and> disk world_slot_2 (movie_path (buildPaths context_500 slot_2))
       = Some (MovieData [''U'', ''U'', ''D'', ''D''] 500)
   \<and> input_list live_movie = [''U'', ''U'', ''D'', ''D'', ''L'']
   \<and> isPrefix live_movie
        (fst (snd (loadInputs (movie_path (buildPaths context_500 slot_2)) new_movie world_slot_2)))
   \<and> fst (load context_500 live_movie False slot_2 world_slot_2) = RET_0
   \<and> LoadInputs ''/tmp/states/game.movie2.ltm''
        \<in> set (emitted world_slot_2 (snd (snd (load context_500 live_movie False slot_2 world_slot_2))))
   \<and> last (emitted world_slot_2 (snd (snd (load context_500 live_movie False slot_2 world_slot_2))))
       = SendMessage MSGN_LOADSTATE
   \<and> fst (load context_500 short_movie False slot_2 world_slot_2) = EINPUTMISMATCH
   \<and> SendMessage MSGN_LOADSTATE
        \<notin> set (emitted world_slot_2 (snd (snd (load context_500 short_movie False slot_2 world_slot_2))))"
proof -
  have 1: "recording (sc (config context_500)) = RECORDING_READ"
    by (simp add: context_500_def config_read_def)
  have 2: "disk world_slot_2 (pagemap_path (buildPaths context_500 slot_2)) \<noteq> None"
    by (simp add: slot_2_paths world_slot_2_def disk_slot_2_def)
  have 3: "disk world_slot_2 (pages_path (buildPaths context_500 slot_2)) \<noteq> None"
    by (simp add: slot_2_paths world_slot_2_def disk_slot_2_def)
  have 4: "disk world_slot_2 (movie_path (buildPaths context_500 slot_2))
           = Some (MovieData [''U'', ''U'', ''D'', ''D''] 500)"
    by (simp add: slot_2_paths world_slot_2_def disk_slot_2_def)
  have 5: "input_list live_movie = [''U'', ''U'', ''D'', ''D'', ''L'']"
    by (simp add: live_movie_def)
  have 6: "slot_id slot_2 = 2" "framecount context_500 = 500"
    "\<not> prefix [''U'', ''U'', ''D'', ''D''] (input_list short_movie)"
    by (simp_all add: slot_2_def context_500_def short_movie_def)
  have 7: "movie_path (buildPaths context_500 slot_2) = ''/tmp/states/game.movie2.ltm''"
    by (rule slot_2_paths)
  note s = load_scenario[OF 1 2 3 4 5, of short_movie]
  have a: "isPrefix live_movie
        (fst (snd (loadInputs (movie_path (buildPaths context_500 slot_2)) new_movie world_slot_2)))"
    using s by blast
  have b: "fst (load context_500 live_movie False slot_2 world_slot_2) = RET_0"
    using s by blast
  have c: "LoadInputs ''/tmp/states/game.movie2.ltm''
        \<in> set (emitted world_slot_2 (snd (snd (load context_500 live_movie False slot_2 world_slot_2))))"
    using s unfolding 7 by simp
  have d: "last (emitted world_slot_2 (snd (snd (load context_500 live_movie False slot_2 world_slot_2))))
       = SendMessage MSGN_LOADSTATE"
    using s by blast
  have e: "fst (load context_500 short_movie False slot_2 world_slot_2) = EINPUTMISMATCH"
    using s 6(3) by simp
  have f: "SendMessage MSGN_LOADSTATE
        \<notin> set (emitted world_slot_2 (snd (snd (load context_500 short_movie False slot_2 world_slot_2))))"
    using s 6(3) by simp
  show ?thesis
    by (intro conjI) (fact 1 6 4 5 a b c d e f)+
qed

subsection \<open>C3: a load without snapshot files\<close>

text \<open>
  Claim C3. When the page map or the page data of the slot is missing, a load returns
  \<^verbatim>\<open>ENOSTATEMOVIEPREFIX\<close> if the mode is not \<^verbatim>\<open>NO_RECORDING\<close>, the movie file of the slot
  exists, \<^verbatim>\<open>loadInputs\<close> returns 0 for it and \<^verbatim>\<open>savedmovie.isPrefix(movie, framecount)\<close> holds
  (the current movie is a prefix of the movie of the slot up to the current frame count),
  and \<^verbatim>\<open>ENOSTATE\<close> in every other case.
\<close>

theorem load_no_snapshot:
  assumes "disk w (pagemap_path (buildPaths c s)) = None \<or> disk w (pages_path (buildPaths c s)) = None"
  shows "fst (load c m b s w) =
     (if recording (sc (config c)) \<noteq> NO_RECORDING \<and> disk w (movie_path (buildPaths c s)) \<noteq> None
         \<and> fst (loadInputs (movie_path (buildPaths c s)) new_movie w) = 0
         \<and> isPrefix_upto (fst (snd (loadInputs (movie_path (buildPaths c s)) new_movie w))) m (framecount c)
      then ENOSTATEMOVIEPREFIX else ENOSTATE)"
proof -
  have "\<exists>w1. disk w1 = disk w \<and>
          fst (load c m b s w) = fst (load_no_state c m (buildMessages c (buildPaths c s)) w1)"
  proof (cases "disk w (pagemap_path (buildPaths c s)) = None")
    case True
    from load_pagemap_absent[OF True, of m b] show ?thesis by auto
  next
    case False
    with assms have "disk w (pages_path (buildPaths c s)) = None" by simp
    from load_pages_absent[OF False this, of m b] show ?thesis by auto
  qed
  then obtain w1 where d: "disk w1 = disk w"
    and l: "fst (load c m b s w) = fst (load_no_state c m (buildMessages c (buildPaths c s)) w1)"
    by blast
  show ?thesis
    unfolding l load_no_state_code using loadInputs_disk[OF d] by (simp add: d)
qed

text \<open>
  At frame 2, with the movie of slot 2 on the disk and no snapshot file, the load of slot 2
  returns \<^verbatim>\<open>ENOSTATEMOVIEPREFIX\<close>: the current movie and the movie of the slot both start with
  U, U. On the empty disk the load returns \<^verbatim>\<open>ENOSTATE\<close>.
\<close>

theorem load_no_snapshot_witness:
  "disk world_movie_only (pagemap_path (buildPaths context_2 slot_2)) = None
   \<and> recording (sc (config context_2)) \<noteq> NO_RECORDING
   \<and> isPrefix_upto slot_2_movie live_movie (framecount context_2)
   \<and> fst (load context_2 live_movie False slot_2 world_movie_only) = ENOSTATEMOVIEPREFIX
   \<and> fst (load context_2 live_movie False slot_2 world_empty) = ENOSTATE"
proof -
  have p: "pagemap_path (buildPaths context_2 slot_2) = ''/tmp/states/game.state2.pm''"
    "movie_path (buildPaths context_2 slot_2) = ''/tmp/states/game.movie2.ltm''"
    by (simp_all add: slot_defs context_2_def context_500_def slot_2_def)
  have 1: "disk world_movie_only (pagemap_path (buildPaths context_2 slot_2)) = None"
    by (simp add: p world_movie_only_def)
  have 2: "disk world_empty (pagemap_path (buildPaths context_2 slot_2)) = None"
    by (simp add: world_empty_def)
  have 3: "isPrefix_upto slot_2_movie live_movie (framecount context_2)"
    by (simp add: isPrefix_upto_def slot_2_movie_def live_movie_def context_2_def context_500_def)
  have 4: "loadInputs ''/tmp/states/game.movie2.ltm'' new_movie world_movie_only =
           (0, slot_2_movie, emit (LoadInputs ''/tmp/states/game.movie2.ltm'') world_movie_only)"
    by (simp add: loadInputs_def new_movie_def slot_2_movie_def world_movie_only_def)
  have 5: "recording (sc (config context_2)) = RECORDING_READ"
    by (simp add: context_2_def context_500_def config_read_def)
  have 6: "disk world_movie_only ''/tmp/states/game.movie2.ltm'' \<noteq> None"
    by (simp add: world_movie_only_def)
  have 7: "disk world_empty ''/tmp/states/game.movie2.ltm'' = None"
    by (simp add: world_empty_def)
  show ?thesis
    using load_no_snapshot[of world_movie_only context_2 slot_2 live_movie False]
      load_no_snapshot[of world_empty context_2 slot_2 live_movie False]
      1 2 3 4 5 6 7
    by (simp add: p)
qed

subsection \<open>C4: the rerecord count\<close>

text \<open>
  Claim C4. After any sequence of edits, load requests and post-loads the rerecord count
  is its first value plus the number of post-loads that the spec counts: those of a
  successful load made while the movie is modified since the last successful load. The
  flag of the movie is set by an edit and cleared by such a post-load. For one post-load:
  the count grows by one when the peer reports success and the flag is set, and then the
  flag is cleared; it does not change in any other case, and without success the flag
  stays as it is. The counter has 32 bits: the sums are those of the machine, and they
  are the sums of the natural numbers as long as the count stays below \<open>2 ^ 32\<close>.
\<close>

theorem rerecord_count_run:
  "rerecord_count (fst (run ops (c, m, w))) =
     rerecord_count c + of_nat (rerecords (modifiedSinceLastStateLoad m) ops)
   \<and> (unat (rerecord_count c) + rerecords (modifiedSinceLastStateLoad m) ops < 2 ^ 32 \<longrightarrow>
        unat (rerecord_count (fst (run ops (c, m, w)))) =
          unat (rerecord_count c) + rerecords (modifiedSinceLastStateLoad m) ops)
   \<and> modifiedSinceLastStateLoad (fst (snd (run ops (c, m, w)))) =
     dirty_after (modifiedSinceLastStateLoad m) ops
   \<and> rerecord_count (fst (snd (postLoad c m b s w))) =
     rerecord_count c + (if succeeded (inbox w) \<and> modifiedSinceLastStateLoad m then 1 else 0)
   \<and> (unat (rerecord_count c) < 2 ^ 32 - 1 \<longrightarrow>
        unat (rerecord_count (fst (snd (postLoad c m b s w)))) =
          unat (rerecord_count c)
          + (if succeeded (inbox w) \<and> modifiedSinceLastStateLoad m then 1 else 0))
   \<and> modifiedSinceLastStateLoad (fst (snd (snd (postLoad c m b s w)))) =
     (modifiedSinceLastStateLoad m \<and> \<not> succeeded (inbox w))"
proof -
  have run: "rerecord_count (fst (run ops (c, m, w))) =
          rerecord_count c + of_nat (rerecords (modifiedSinceLastStateLoad m) ops)
        \<and> modifiedSinceLastStateLoad (fst (snd (run ops (c, m, w)))) =
          dirty_after (modifiedSinceLastStateLoad m) ops"
  proof (induction ops arbitrary: c m w)
    case Nil
    show ?case by simp
  next
    case (Cons x xs)
    obtain c' m' w' where st: "step x (c, m, w) = (c', m', w')"
      by (cases "step x (c, m, w)") auto
    have 1: "rerecord_count c' =
               rerecord_count c + of_nat (rerecords (modifiedSinceLastStateLoad m) [x])"
      and 2: "modifiedSinceLastStateLoad m' = dirty_after (modifiedSinceLastStateLoad m) [x]"
      using step_state[of x c m w] st by simp_all
    have "run (x # xs) (c, m, w) = run xs (c', m', w')"
      by (simp add: st)
    then show ?case
      using Cons.IH[of c' m' w'] 1 2
      by (simp only: rerecords_Cons[of _ x xs]) simp
  qed
  have nat_run: "unat (rerecord_count c + of_nat n) = unat (rerecord_count c) + n"
    if "unat (rerecord_count c) + n < 2 ^ 32" for n
    using that by (simp add: unat_word_ariths unat_of_nat)
  have one: "unat (rerecord_count c + (if p then 1 else 0)) =
               unat (rerecord_count c) + (if p then 1 else 0)"
    if "unat (rerecord_count c) < 2 ^ 32 - 1" for p
    using that by (simp add: unat_word_ariths)
  show ?thesis
    using run nat_run one by (simp add: postLoad_state)
qed

text \<open>
  A session of nine operations with two counted loads, and three single post-loads: a
  successful load of an edited movie counts, a successful load of an unedited movie and a
  failed load of an edited movie do not. At the largest value of the counter the counted
  load gives 0.
\<close>

theorem rerecord_count_run_witness:
  "rerecords False session_ops = 2
   \<and> unat (rerecord_count context_500) + rerecords False session_ops < 2 ^ 32
   \<and> unat (rerecord_count (fst (run session_ops (context_500, live_movie, world_slot_2)))) = 2
   \<and> \<not> modifiedSinceLastStateLoad (fst (snd (run session_ops (context_500, live_movie, world_slot_2))))
   \<and> unat (rerecord_count (fst (snd (postLoad context_500 edited_movie False slot_2
        (world_slot_2\<lparr>inbox := replies_loaded\<rparr>))))) = 1
   \<and> unat (rerecord_count (fst (snd (postLoad context_500 live_movie False slot_2
        (world_slot_2\<lparr>inbox := replies_loaded\<rparr>))))) = 0
   \<and> unat (rerecord_count (fst (snd (postLoad context_500 edited_movie False slot_2
        (world_slot_2\<lparr>inbox := replies_not_loaded\<rparr>))))) = 0
   \<and> rerecord_count (fst (snd (postLoad (context_500\<lparr>rerecord_count := 4294967295\<rparr>)
        edited_movie False slot_2 (world_slot_2\<lparr>inbox := replies_loaded\<rparr>)))) = 0"
proof -
  have 1: "rerecords False session_ops = 2" "dirty_after False session_ops = False"
    by (simp_all add: session_ops_def replies_loaded_def replies_not_loaded_def
          replies_other_def replies_loaded_other_def)
  have 2: "rerecord_count context_500 = 0" "modifiedSinceLastStateLoad live_movie = False"
    "modifiedSinceLastStateLoad edited_movie = True"
    by (simp_all add: context_500_def live_movie_def edited_movie_def edit_def)
  have 3: "succeeded (inbox (world_slot_2\<lparr>inbox := replies_loaded\<rparr>))"
    "\<not> succeeded (inbox (world_slot_2\<lparr>inbox := replies_not_loaded\<rparr>))"
    by (simp_all add: replies_loaded_def replies_not_loaded_def)
  show ?thesis
    using rerecord_count_run[of session_ops context_500 live_movie world_slot_2 False slot_2]
      rerecord_count_run[of "[]" context_500 edited_movie "world_slot_2\<lparr>inbox := replies_loaded\<rparr>"
            False slot_2]
      rerecord_count_run[of "[]" context_500 live_movie "world_slot_2\<lparr>inbox := replies_loaded\<rparr>"
            False slot_2]
      rerecord_count_run[of "[]" context_500 edited_movie "world_slot_2\<lparr>inbox := replies_not_loaded\<rparr>"
            False slot_2]
      rerecord_count_run[of "[]" "context_500\<lparr>rerecord_count := 4294967295\<rparr>" edited_movie
            "world_slot_2\<lparr>inbox := replies_loaded\<rparr>" False slot_2]
      1 2 3
    by simp
qed

subsection \<open>C5: the movie is saved before the save is requested\<close>

text \<open>
  Claim C5. In a save, what happens before the first send on the channel is the write of
  the movie to the movie path of the slot with the current frame count, if the mode is
  not \<^verbatim>\<open>NO_RECORDING\<close>, and nothing otherwise; the save writes no other movie. When the
  state goes to a file and not to RAM, the disk then holds that movie with that frame
  count at the movie path, and without recording the disk is left as it was. The index
  message and the save message are sent in every save.
\<close>

theorem save_movie_first:
  "takeWhile (\<lambda>e. \<not> is_send e) (emitted w (snd (snd (save c m s w)))) =
     (if recording (sc (config c)) \<noteq> NO_RECORDING
      then [SaveMovie (movie_path (buildPaths c s)) (framecount c) (input_list m)] else [])
   \<and> filter is_SaveMovie (emitted w (snd (snd (save c m s w)))) =
     (if recording (sc (config c)) \<noteq> NO_RECORDING
      then [SaveMovie (movie_path (buildPaths c s)) (framecount c) (input_list m)] else [])
   \<and> (recording (sc (config c)) \<noteq> NO_RECORDING \<and> \<not> ss_ram (sc (config c)) \<longrightarrow>
        disk (snd (snd (save c m s w))) (movie_path (buildPaths c s))
          = Some (MovieData (input_list m) (framecount c)))
   \<and> (recording (sc (config c)) = NO_RECORDING \<and> \<not> ss_ram (sc (config c)) \<longrightarrow>
        disk (snd (snd (save c m s w))) = disk w)
   \<and> SendMessage MSGN_SAVESTATE_INDEX \<in> set (emitted w (snd (snd (save c m s w))))
   \<and> SendMessage MSGN_SAVESTATE \<in> set (emitted w (snd (snd (save c m s w))))"
  unfolding save_events save_disk by (simp split: option.splits)

text \<open>
  A save of slot 2 while a recording is written, and one without recording.
\<close>

theorem save_movie_first_witness:
  "recording (sc (config context_write)) \<noteq> NO_RECORDING
   \<and> takeWhile (\<lambda>e. \<not> is_send e) (emitted world_saved (snd (snd (save context_write live_movie slot_2 world_saved))))
      = [SaveMovie ''/tmp/states/game.movie2.ltm'' 500 [''U'', ''U'', ''D'', ''D'', ''L'']]
   \<and> disk (snd (snd (save context_write live_movie slot_2 world_saved))) ''/tmp/states/game.movie2.ltm''
      = Some (MovieData [''U'', ''U'', ''D'', ''D'', ''L''] 500)
   \<and> recording (sc (config context_off)) = NO_RECORDING
   \<and> filter is_SaveMovie (emitted world_saved (snd (snd (save context_off live_movie slot_2 world_saved)))) = []
   \<and> disk (snd (snd (save context_off live_movie slot_2 world_saved))) = disk world_saved"
proof -
  have 1: "recording (sc (config context_write)) = RECORDING_WRITE"
    "\<not> ss_ram (sc (config context_write))"
    "recording (sc (config context_off)) = NO_RECORDING"
    "\<not> ss_ram (sc (config context_off))"
    by (simp_all add: context_write_def context_off_def context_500_def config_read_def)
  have 2: "movie_path (buildPaths context_write slot_2) = ''/tmp/states/game.movie2.ltm''"
    by (simp add: slot_defs context_write_def context_500_def slot_2_def)
  have 3: "framecount context_write = 500" "input_list live_movie = [''U'', ''U'', ''D'', ''D'', ''L'']"
    by (simp_all add: context_write_def context_500_def live_movie_def)
  show ?thesis
    using save_movie_first[of world_saved context_write live_movie slot_2]
      save_movie_first[of world_saved context_off live_movie slot_2] 1 2 3
    by simp
qed

subsection \<open>C6: the expose message\<close>

text \<open>
  Claim C6, with the guard that the code has before the expose message. When \<^verbatim>\<open>postLoad\<close>
  returns anything but \<^verbatim>\<open>ENOLOAD\<close>, whether the peer has reported success or not, the last
  thing it has done is to send \<^verbatim>\<open>MSGN_EXPOSE\<close>; what it returns then is
  \<^verbatim>\<open>MSGB_LOADING_SUCCEEDED\<close> after a successful load and 0 after a failed one. When it
  returns \<^verbatim>\<open>ENOLOAD\<close> it has sent no expose message, and the message in the place of the
  frame count report was another one. Such a message, as the first message or as the one
  that follows the report of success, always makes \<^verbatim>\<open>postLoad\<close> return \<^verbatim>\<open>ENOLOAD\<close> with no
  expose message; the frame count report with its three values, first or after the
  report of success, always makes it return 0 or \<^verbatim>\<open>MSGB_LOADING_SUCCEEDED\<close> with the
  expose message last.
\<close>

theorem postLoad_expose:
  "(fst (postLoad c m b s w) = Some r \<and> r \<noteq> ENOLOAD \<longrightarrow>
      emitted w (snd (snd (snd (postLoad c m b s w)))) \<noteq> []
      \<and> last (emitted w (snd (snd (snd (postLoad c m b s w))))) = SendMessage MSGN_EXPOSE
      \<and> r = (if succeeded (inbox w) then RET_MSG MSGB_LOADING_SUCCEEDED else RET_0))
   \<and> (fst (postLoad c m b s w) = Some ENOLOAD \<longrightarrow>
      SendMessage MSGN_EXPOSE \<notin> set (emitted w (snd (snd (snd (postLoad c m b s w)))))
      \<and> ((\<exists>x rest. inbox w = Message x # rest
             \<and> x \<noteq> MSGB_LOADING_SUCCEEDED \<and> x \<noteq> MSGB_FRAMECOUNT_TIME)
         \<or> (\<exists>y rest. inbox w = Message MSGB_LOADING_SUCCEEDED # Message y # rest
             \<and> y \<noteq> MSGB_FRAMECOUNT_TIME)))
   \<and> (inbox w = Message x # rest \<and> x \<noteq> MSGB_LOADING_SUCCEEDED \<and> x \<noteq> MSGB_FRAMECOUNT_TIME \<longrightarrow>
      fst (postLoad c m b s w) = Some ENOLOAD
      \<and> SendMessage MSGN_EXPOSE \<notin> set (emitted w (snd (snd (snd (postLoad c m b s w))))))
   \<and> (inbox w = Message MSGB_LOADING_SUCCEEDED # Message y # rest \<and> y \<noteq> MSGB_FRAMECOUNT_TIME \<longrightarrow>
      fst (postLoad c m b s w) = Some ENOLOAD
      \<and> SendMessage MSGN_EXPOSE \<notin> set (emitted w (snd (snd (snd (postLoad c m b s w))))))
   \<and> (inbox w = Message MSGB_FRAMECOUNT_TIME # Data64 d1 # Data64 d2 # Data64 d3 # rest \<longrightarrow>
      fst (postLoad c m b s w) = Some RET_0
      \<and> last (emitted w (snd (snd (snd (postLoad c m b s w))))) = SendMessage MSGN_EXPOSE)
   \<and> (inbox w = Message MSGB_LOADING_SUCCEEDED # Message MSGB_FRAMECOUNT_TIME
                  # Data64 d1 # Data64 d2 # Data64 d3 # rest \<longrightarrow>
      fst (postLoad c m b s w) = Some (RET_MSG MSGB_LOADING_SUCCEEDED)
      \<and> last (emitted w (snd (snd (snd (postLoad c m b s w))))) = SendMessage MSGN_EXPOSE)"
proof (intro conjI impI)
  assume a: "fst (postLoad c m b s w) = Some r \<and> r \<noteq> ENOLOAD"
  then have r: "fst (postLoad c m b s w) = Some r" and n: "r \<noteq> ENOLOAD" by simp_all
  show "emitted w (snd (snd (snd (postLoad c m b s w)))) \<noteq> []"
    by (rule postLoad_events(1)[OF r n])
  show "last (emitted w (snd (snd (snd (postLoad c m b s w))))) = SendMessage MSGN_EXPOSE"
    by (rule postLoad_events(2)[OF r n])
  show "r = (if succeeded (inbox w) then RET_MSG MSGB_LOADING_SUCCEEDED else RET_0)"
    by (rule postLoad_events(3)[OF r n])
next
  assume e: "fst (postLoad c m b s w) = Some ENOLOAD"
  show "SendMessage MSGN_EXPOSE \<notin> set (emitted w (snd (snd (snd (postLoad c m b s w)))))"
    by (rule postLoad_events(4)[OF e refl])
  show "(\<exists>x rest. inbox w = Message x # rest
             \<and> x \<noteq> MSGB_LOADING_SUCCEEDED \<and> x \<noteq> MSGB_FRAMECOUNT_TIME)
         \<or> (\<exists>y rest. inbox w = Message MSGB_LOADING_SUCCEEDED # Message y # rest
             \<and> y \<noteq> MSGB_FRAMECOUNT_TIME)"
    by (rule postLoad_ENOLOAD_only[OF e])
next
  assume a: "inbox w = Message x # rest \<and> x \<noteq> MSGB_LOADING_SUCCEEDED \<and> x \<noteq> MSGB_FRAMECOUNT_TIME"
  then show e: "fst (postLoad c m b s w) = Some ENOLOAD"
    by (intro postLoad_wrong_first[where x = x and rest = rest]) simp_all
  show "SendMessage MSGN_EXPOSE \<notin> set (emitted w (snd (snd (snd (postLoad c m b s w)))))"
    by (rule postLoad_events(4)[OF e refl])
next
  assume a: "inbox w = Message MSGB_LOADING_SUCCEEDED # Message y # rest \<and> y \<noteq> MSGB_FRAMECOUNT_TIME"
  then show e: "fst (postLoad c m b s w) = Some ENOLOAD"
    by (intro postLoad_wrong_second[where y = y and rest = rest]) simp_all
  show "SendMessage MSGN_EXPOSE \<notin> set (emitted w (snd (snd (snd (postLoad c m b s w)))))"
    by (rule postLoad_events(4)[OF e refl])
next
  assume a: "inbox w = Message MSGB_FRAMECOUNT_TIME # Data64 d1 # Data64 d2 # Data64 d3 # rest"
  show r: "fst (postLoad c m b s w) = Some RET_0"
    by (rule postLoad_report_first[OF a])
  show "last (emitted w (snd (snd (snd (postLoad c m b s w))))) = SendMessage MSGN_EXPOSE"
    by (rule postLoad_events(2)[OF r]) simp
next
  assume a: "inbox w = Message MSGB_LOADING_SUCCEEDED # Message MSGB_FRAMECOUNT_TIME
                  # Data64 d1 # Data64 d2 # Data64 d3 # rest"
  show r: "fst (postLoad c m b s w) = Some (RET_MSG MSGB_LOADING_SUCCEEDED)"
    by (rule postLoad_report_second[OF a])
  show "last (emitted w (snd (snd (snd (postLoad c m b s w))))) = SendMessage MSGN_EXPOSE"
    by (rule postLoad_events(2)[OF r]) simp
qed

text \<open>
  A successful and a failed load that are followed by the frame count report: both end
  with the expose message. A message that is not the frame count report, first or after
  the report of success: \<^verbatim>\<open>ENOLOAD\<close> and no expose message.
\<close>

theorem postLoad_expose_witness:
  "fst (postLoad context_500 live_movie False slot_2 (world_slot_2\<lparr>inbox := replies_loaded\<rparr>))
     = Some (RET_MSG MSGB_LOADING_SUCCEEDED)
   \<and> last (emitted (world_slot_2\<lparr>inbox := replies_loaded\<rparr>)
        (snd (snd (snd (postLoad context_500 live_movie False slot_2
           (world_slot_2\<lparr>inbox := replies_loaded\<rparr>))))))
       = SendMessage MSGN_EXPOSE
   \<and> fst (postLoad context_500 live_movie False slot_2 (world_slot_2\<lparr>inbox := replies_not_loaded\<rparr>))
     = Some RET_0
   \<and> last (emitted (world_slot_2\<lparr>inbox := replies_not_loaded\<rparr>)
        (snd (snd (snd (postLoad context_500 live_movie False slot_2
           (world_slot_2\<lparr>inbox := replies_not_loaded\<rparr>))))))
       = SendMessage MSGN_EXPOSE
   \<and> fst (postLoad context_500 live_movie False slot_2 (world_slot_2\<lparr>inbox := replies_other\<rparr>))
     = Some ENOLOAD
   \<and> SendMessage MSGN_EXPOSE \<notin> set (emitted (world_slot_2\<lparr>inbox := replies_other\<rparr>)
        (snd (snd (snd (postLoad context_500 live_movie False slot_2
           (world_slot_2\<lparr>inbox := replies_other\<rparr>))))))
   \<and> fst (postLoad context_500 live_movie False slot_2 (world_slot_2\<lparr>inbox := replies_loaded_other\<rparr>))
     = Some ENOLOAD
   \<and> SendMessage MSGN_EXPOSE \<notin> set (emitted (world_slot_2\<lparr>inbox := replies_loaded_other\<rparr>)
        (snd (snd (snd (postLoad context_500 live_movie False slot_2
           (world_slot_2\<lparr>inbox := replies_loaded_other\<rparr>))))))"
proof -
  have 1: "inbox (world_slot_2\<lparr>inbox := replies_loaded\<rparr>) =
      Message MSGB_LOADING_SUCCEEDED # Message MSGB_FRAMECOUNT_TIME
        # Data64 500 # Data64 12 # Data64 340 # []"
    by (simp add: replies_loaded_def)
  have 2: "inbox (world_slot_2\<lparr>inbox := replies_not_loaded\<rparr>) =
      Message MSGB_FRAMECOUNT_TIME # Data64 500 # Data64 12 # Data64 340 # []"
    by (simp add: replies_not_loaded_def)
  have 3: "inbox (world_slot_2\<lparr>inbox := replies_other\<rparr>) = Message (MSG_OTHER 0) # []"
    by (simp add: replies_other_def)
  have 4: "inbox (world_slot_2\<lparr>inbox := replies_loaded_other\<rparr>) =
      Message MSGB_LOADING_SUCCEEDED # Message (MSG_OTHER 0) # []"
    by (simp add: replies_loaded_other_def)
  show ?thesis
    using postLoad_expose[where w = "world_slot_2\<lparr>inbox := replies_loaded\<rparr>" and rest = "[]"
            and ?d1.0 = 500 and ?d2.0 = 12 and ?d3.0 = 340
            and c = context_500 and m = live_movie and b = False and s = slot_2]
      postLoad_expose[where w = "world_slot_2\<lparr>inbox := replies_not_loaded\<rparr>" and rest = "[]"
            and ?d1.0 = 500 and ?d2.0 = 12 and ?d3.0 = 340
            and c = context_500 and m = live_movie and b = False and s = slot_2]
      postLoad_expose[where w = "world_slot_2\<lparr>inbox := replies_other\<rparr>" and rest = "[]"
            and x = "MSG_OTHER 0"
            and c = context_500 and m = live_movie and b = False and s = slot_2]
      postLoad_expose[where w = "world_slot_2\<lparr>inbox := replies_loaded_other\<rparr>" and rest = "[]"
            and y = "MSG_OTHER 0"
            and c = context_500 and m = live_movie and b = False and s = slot_2]
    unfolding 1 2 3 4
    by simp
qed

text \<open>
  Claim C6 as it is worded promises the expose message after every post-load. When the peer
  sends a message that is not the frame count report, first or after its report of
  success, \<^verbatim>\<open>postLoad\<close> returns \<^verbatim>\<open>ENOLOAD\<close> and no expose message is in the trace.
\<close>

theorem postLoad_expose_counterexample:
  "fst (postLoad context_500 live_movie False slot_2 (world_slot_2\<lparr>inbox := replies_other\<rparr>))
     = Some ENOLOAD
   \<and> SendMessage MSGN_EXPOSE \<notin> set (trace (snd (snd (snd
        (postLoad context_500 live_movie False slot_2 (world_slot_2\<lparr>inbox := replies_other\<rparr>))))))
   \<and> fst (postLoad context_500 live_movie False slot_2 (world_slot_2\<lparr>inbox := replies_loaded_other\<rparr>))
     = Some ENOLOAD
   \<and> SendMessage MSGN_EXPOSE \<notin> set (trace (snd (snd (snd
        (postLoad context_500 live_movie False slot_2
           (world_slot_2\<lparr>inbox := replies_loaded_other\<rparr>))))))"
  by (simp add: postLoad_defs world_defs slot_2_defs replies_other_def replies_loaded_other_def Let_def)

subsection \<open>C7: dlopen and the registry\<close>

text \<open>
  Claim C7. In non-native mode, \<^verbatim>\<open>dlopen\<close> of a path that contains \<^verbatim>\<open>libpulse\<close> or
  \<^verbatim>\<open>ScreenSelector.so\<close> returns the null pointer and leaves the registry as it was. For any
  other path that the real \<^verbatim>\<open>dlopen\<close> loads, the handle of the real \<^verbatim>\<open>dlopen\<close> is returned and
  the registry is the old one with the path inserted: one entry more if the path was not
  registered, as many as before if it was. A second \<^verbatim>\<open>dlopen\<close> of the path, whatever the
  loader answers then, leaves the registry as the first one left it.
\<close>

theorem dlopen_registry:
  assumes "\<not> native st"
  shows "(file_contains (Some p) ''libpulse'' \<or> file_contains (Some p) ''ScreenSelector.so'' \<longrightarrow>
            fst (dlopen ld (Some p) mode st) = nullptr
            \<and> library_set (snd (dlopen ld (Some p) mode st)) = library_set st)
       \<and> (\<not> file_contains (Some p) ''libpulse'' \<and> \<not> file_contains (Some p) ''ScreenSelector.so''
            \<and> real_dlopen ld (Some p) mode \<noteq> nullptr \<longrightarrow>
            fst (dlopen ld (Some p) mode st) = real_dlopen ld (Some p) mode
            \<and> library_set (snd (dlopen ld (Some p) mode st)) = finsert p (library_set st)
            \<and> fcard (library_set (snd (dlopen ld (Some p) mode st))) =
                (if p |\<in>| library_set st then fcard (library_set st)
                 else Suc (fcard (library_set st)))
            \<and> library_set (snd (dlopen ld' (Some p) mode' (snd (dlopen ld (Some p) mode st)))) =
                library_set (snd (dlopen ld (Some p) mode st)))"
proof (intro conjI impI)
  assume d: "file_contains (Some p) ''libpulse'' \<or> file_contains (Some p) ''ScreenSelector.so''"
  show "fst (dlopen ld (Some p) mode st) = nullptr"
    using assms d by (rule dlopen_denied)
  show "library_set (snd (dlopen ld (Some p) mode st)) = library_set st"
    using assms d by (rule dlopen_denied)
next
  assume a: "\<not> file_contains (Some p) ''libpulse'' \<and> \<not> file_contains (Some p) ''ScreenSelector.so''
            \<and> real_dlopen ld (Some p) mode \<noteq> nullptr"
  then have 1: "\<not> file_contains (Some p) ''libpulse''"
    and 2: "\<not> file_contains (Some p) ''ScreenSelector.so''"
    and 3: "real_dlopen ld (Some p) mode \<noteq> nullptr"
    by simp_all
  let ?st = "snd (dlopen ld (Some p) mode st)"
  show "fst (dlopen ld (Some p) mode st) = real_dlopen ld (Some p) mode"
    using assms 1 2 by (rule dlopen_loaded)
  show reg: "library_set ?st = finsert p (library_set st)"
    using dlopen_loaded(2)[OF assms 1 2, of ld mode] 3 by simp
  show "fcard (library_set ?st) =
          (if p |\<in>| library_set st then fcard (library_set st) else Suc (fcard (library_set st)))"
    unfolding reg by (simp add: fcard_finsert_if)
  have n: "\<not> native ?st" using assms by simp
  show "library_set (snd (dlopen ld' (Some p) mode' ?st)) = library_set ?st"
    using dlopen_loaded(2)[OF n 1 2, of ld' mode'] reg by auto
qed

text \<open>
  From the first state of the interceptor: the PulseAudio library is refused and not
  registered, \<^verbatim>\<open>libSDL2.so\<close> is registered once however often it is loaded.
\<close>

theorem dlopen_registry_witness:
  "\<not> native dlstate_0
   \<and> file_contains (Some ''/usr/lib/libpulse.so.0'') ''libpulse''
   \<and> fst (dlopen loader_0 (Some ''/usr/lib/libpulse.so.0'') RTLD_LAZY dlstate_0) = nullptr
   \<and> library_set (snd (dlopen loader_0 (Some ''/usr/lib/libpulse.so.0'') RTLD_LAZY dlstate_0)) = {||}
   \<and> \<not> file_contains (Some ''libSDL2.so'') ''libpulse''
   \<and> \<not> file_contains (Some ''libSDL2.so'') ''ScreenSelector.so''
   \<and> real_dlopen loader_0 (Some ''libSDL2.so'') RTLD_LAZY \<noteq> nullptr
   \<and> library_set (snd (dlopen loader_0 (Some ''libSDL2.so'') RTLD_LAZY dlstate_0)) = {|''libSDL2.so''|}
   \<and> fcard (library_set (snd (dlopen loader_0 (Some ''libSDL2.so'') RTLD_LAZY dlstate_0))) = 1
   \<and> library_set (snd (dlopen loader_0 (Some ''libSDL2.so'') RTLD_LAZY
        (snd (dlopen loader_0 (Some ''libSDL2.so'') RTLD_LAZY dlstate_0)))) = {|''libSDL2.so''|}"
proof -
  have 1: "\<not> native dlstate_0" "library_set dlstate_0 = {||}"
    by (simp_all add: dlstate_0_def)
  have 2: "file_contains (Some ''/usr/lib/libpulse.so.0'') ''libpulse''"
    by (simp add: file_contains_def)
  have 3: "\<not> file_contains (Some ''libSDL2.so'') ''libpulse''"
    "\<not> file_contains (Some ''libSDL2.so'') ''ScreenSelector.so''"
    by (simp_all add: file_contains_def)
  have 4: "real_dlopen loader_0 (Some ''libSDL2.so'') RTLD_LAZY \<noteq> nullptr"
    by (simp add: loader_0_def nullptr_def)
  show ?thesis
    using dlopen_registry[OF 1(1), of "''/usr/lib/libpulse.so.0''" loader_0 RTLD_LAZY]
      dlopen_registry[OF 1(1), of "''libSDL2.so''" loader_0 RTLD_LAZY loader_0 RTLD_LAZY]
      1 2 3 4
    by (simp add: fcard_finsert_if)
qed

subsection \<open>C8: dlsym of the names dlopen and dlsym\<close>

text \<open>
  Claim C8, with the bootstrap that every call of \<^verbatim>\<open>dlsym\<close> makes while \<^verbatim>\<open>orig::dlsym\<close> is
  null. In non-native mode, \<^verbatim>\<open>dlsym\<close> of the name \<^verbatim>\<open>dlopen\<close> or \<^verbatim>\<open>dlsym\<close> returns the address
  of the wrapper of that name, for every handle. Nothing resolves the request: no call of
  \<^verbatim>\<open>orig::dlsym\<close>, of \<^verbatim>\<open>_dl_sym\<close> or of \<^verbatim>\<open>find_sym\<close> is made for it. The one call that can
  leave the interceptor is the bootstrap \<^verbatim>\<open>_dl_sym(RTLD_NEXT, "dlsym", ...)\<close> that caches
  \<^verbatim>\<open>orig::dlsym\<close>: it is made when the pointer is null and never when it is not. The
  registry and the recursion counter are as before the call.
\<close>

theorem dlsym_own_names:
  assumes "\<not> native st" and "name = ''dlopen'' \<or> name = ''dlsym''"
  shows "fst (dlsym ld handle name st) =
           (if name = ''dlopen'' then dlopen_wrapper ld else dlsym_wrapper ld)
       \<and> new_calls st (snd (dlsym ld handle name st)) =
           (if orig_dlsym st = nullptr then [Call_bootstrap ''dlsym''] else [])
       \<and> library_set (snd (dlsym ld handle name st)) = library_set st
       \<and> recurs_count (snd (dlsym ld handle name st)) = recurs_count st"
  using dlsym_self[OF assms] by (simp add: dlsym_count)

text \<open>
  With the pointers cached no call is logged, for \<^verbatim>\<open>RTLD_NEXT\<close> and for \<^verbatim>\<open>RTLD_DEFAULT\<close>; on
  the first call of the process the bootstrap is the only one.
\<close>

theorem dlsym_own_names_witness:
  "\<not> native dlstate_ready
   \<and> fst (dlsym loader_0 RTLD_NEXT ''dlsym'' dlstate_ready) = dlsym_wrapper loader_0
   \<and> fst (dlsym loader_0 RTLD_DEFAULT ''dlopen'' dlstate_ready) = dlopen_wrapper loader_0
   \<and> new_calls dlstate_ready (snd (dlsym loader_0 RTLD_NEXT ''dlsym'' dlstate_ready)) = []
   \<and> new_calls dlstate_0 (snd (dlsym loader_0 77 ''dlopen'' dlstate_0)) = [Call_bootstrap ''dlsym'']"
proof -
  have 1: "\<not> native dlstate_ready" "\<not> native dlstate_0"
    "orig_dlsym dlstate_ready \<noteq> nullptr" "orig_dlsym dlstate_0 = nullptr"
    by (simp_all add: dlstate_ready_def dlstate_0_def nullptr_def)
  show ?thesis
    using dlsym_own_names[OF 1(1), of "''dlsym''" loader_0 RTLD_NEXT]
      dlsym_own_names[OF 1(1), of "''dlopen''" loader_0 RTLD_DEFAULT]
      dlsym_own_names[OF 1(2), of "''dlopen''" loader_0 77]
      1
    by simp
qed

text \<open>
  Claim C8 as it is worded has no underlying resolution invoked at all. On the first call
  of the process, when \<^verbatim>\<open>orig::dlsym\<close> is still null, \<^verbatim>\<open>dlsym(RTLD_DEFAULT, "dlsym")\<close> returns
  the wrapper and has called \<^verbatim>\<open>_dl_sym(RTLD_NEXT, "dlsym", ...)\<close> on its way.
\<close>

theorem dlsym_bootstrap_counterexample:
  "\<not> native dlstate_0 \<and> orig_dlsym dlstate_0 = nullptr
   \<and> fst (dlsym loader_0 RTLD_DEFAULT ''dlsym'' dlstate_0) = dlsym_wrapper loader_0
   \<and> new_calls dlstate_0 (snd (dlsym loader_0 RTLD_DEFAULT ''dlsym'' dlstate_0))
       = [Call_bootstrap ''dlsym'']
   \<and> new_calls dlstate_0 (snd (dlsym loader_0 RTLD_DEFAULT ''dlsym'' dlstate_0)) \<noteq> []
   \<and> orig_dlsym (snd (dlsym loader_0 RTLD_DEFAULT ''dlsym'' dlstate_0))
       = dl_sym loader_0 RTLD_NEXT ''dlsym''"
  by (simp add: dl_defs)

subsection \<open>C9: the recursion counter\<close>

text \<open>
  Claim C9, at a call that the code answers against its own comment ("If we detect a
  recursion, we switch to the pure dlsym() function like above"). The counter is handled
  as the claim says: the entry adds one, every \<^verbatim>\<open>return\<close> takes one off, and the call leaves
  it as it was (\<open>dlsym_count\<close> and \<open>dlsym_all_count\<close> show it for every call and every
  sequence of calls). The switch is not: \<open>safe\<close> is computed on entry, but only the branch
  for the native mode reads it. In non-native mode, with a call of \<^verbatim>\<open>dlsym\<close> in progress
  (the counter is 1), \<^verbatim>\<open>dlsym(77, "glXSwapBuffers")\<close> sets \<open>safe\<close>, and is answered by
  \<^verbatim>\<open>orig::dlsym\<close> on \<^verbatim>\<open>RTLD_DEFAULT\<close>, inside \<^verbatim>\<open>find_sym\<close>; \<^verbatim>\<open>_dl_sym\<close> is not called. The same
  call in native mode is answered by \<^verbatim>\<open>_dl_sym\<close>.
\<close>

theorem dlsym_nested_non_native:
  "\<not> native dlstate_nested \<and> recurs_count dlstate_nested = 1
   \<and> safe (dlsym_enter loader_0 dlstate_nested)
   \<and> recurs_count (dlsym_enter loader_0 dlstate_nested) = 2
   \<and> new_calls dlstate_nested (snd (dlsym loader_0 77 ''glXSwapBuffers'' dlstate_nested))
       = [Call_orig_dlsym RTLD_DEFAULT ''glXSwapBuffers'']
   \<and> Call_dl_sym 77 ''glXSwapBuffers''
       \<notin> set (new_calls dlstate_nested (snd (dlsym loader_0 77 ''glXSwapBuffers'' dlstate_nested)))
   \<and> fst (dlsym loader_0 77 ''glXSwapBuffers'' dlstate_nested)
       = fst (real_dlsym loader_0 RTLD_DEFAULT ''glXSwapBuffers'')
   \<and> fst (dlsym loader_0 77 ''glXSwapBuffers'' dlstate_nested) \<noteq> dl_sym loader_0 77 ''glXSwapBuffers''
   \<and> recurs_count (snd (dlsym loader_0 77 ''glXSwapBuffers'' dlstate_nested)) = 1
   \<and> native dlstate_native_nested \<and> recurs_count dlstate_native_nested = 1
   \<and> new_calls dlstate_native_nested
        (snd (dlsym loader_0 77 ''glXSwapBuffers'' dlstate_native_nested))
       = [Call_dl_sym 77 ''glXSwapBuffers'']
   \<and> fst (dlsym loader_0 77 ''glXSwapBuffers'' dlstate_native_nested)
       = dl_sym loader_0 77 ''glXSwapBuffers''"
  by (simp add: dl_defs dlstate_nested_def dlstate_native_nested_def dlstate_ready_def)

subsection \<open>C10: the index message comes first\<close>

text \<open>
  Claim C10. The first three effects of every load are the index message, the id of the
  slot and, only then, the first look at the snapshot files. So a load that returns
  \<^verbatim>\<open>ENOSTATE\<close> or \<^verbatim>\<open>ENOSTATEMOVIEPREFIX\<close> has sent the index message.
\<close>

theorem load_index_first:
  "take 3 (emitted w (snd (snd (load c m b s w)))) =
     [SendMessage MSGN_SAVESTATE_INDEX, SendData_int (slot_id s),
      Access (pagemap_path (buildPaths c s))]
   \<and> (fst (load c m b s w) = ENOSTATE \<or> fst (load c m b s w) = ENOSTATEMOVIEPREFIX \<longrightarrow>
        SendMessage MSGN_SAVESTATE_INDEX \<in> set (emitted w (snd (snd (load c m b s w)))))"
proof -
  let ?l = "[SendMessage MSGN_SAVESTATE_INDEX, SendData_int (slot_id s),
             Access (pagemap_path (buildPaths c s))]"
  have "\<exists>r. trace (snd (snd (load c m b s w))) = trace w @ ?l @ r"
  proof (cases "disk w (pagemap_path (buildPaths c s)) = None")
    case True
    from load_pagemap_absent[OF True, of m b] obtain w1 where
      t: "trace w1 = trace w @ ?l" and
      l: "snd (snd (load c m b s w)) = snd (load_no_state c m (buildMessages c (buildPaths c s)) w1)"
      by auto
    from load_no_state_prefix[of w1 c m "buildMessages c (buildPaths c s)"] t l
    show ?thesis by (auto simp: prefix_def)
  next
    case False
    show ?thesis
    proof (cases "disk w (pages_path (buildPaths c s)) = None")
      case True
      from load_pages_absent[OF False True, of m b] obtain w1 where
        t: "trace w1 = trace w @ ?l @ [Access (pages_path (buildPaths c s))]" and
        l: "snd (snd (load c m b s w)) = snd (load_no_state c m (buildMessages c (buildPaths c s)) w1)"
        by auto
      from load_no_state_prefix[of w1 c m "buildMessages c (buildPaths c s)"] t l
      show ?thesis by (auto simp: prefix_def)
    next
      case True': False
      from load_present[OF False True', of m b] obtain w1 where
        t: "trace w1 = trace w @ ?l @ [Access (pages_path (buildPaths c s))]" and
        l: "snd (snd (load c m b s w)) = snd (load_state c m b (buildMessages c (buildPaths c s)) w1)"
        by auto
      from load_state_prefix[of w1 c m b "buildMessages c (buildPaths c s)"] t l
      show ?thesis by (auto simp: prefix_def)
    qed
  qed
  then obtain r where "trace (snd (snd (load c m b s w))) = trace w @ ?l @ r" by blast
  then have "emitted w (snd (snd (load c m b s w))) = ?l @ r" by (simp add: emitted_def)
  then show ?thesis by simp
qed

text \<open>
  On the empty disk the load of slot 2 returns \<^verbatim>\<open>ENOSTATE\<close> after it has sent the index
  message and the id 2.
\<close>

theorem load_index_first_witness:
  "fst (load context_500 live_movie False slot_2 world_empty) = ENOSTATE
   \<and> take 3 (emitted world_empty (snd (snd (load context_500 live_movie False slot_2 world_empty)))) =
       [SendMessage MSGN_SAVESTATE_INDEX, SendData_int 2, Access ''/tmp/states/game.state2.pm'']
   \<and> SendMessage MSGN_SAVESTATE_INDEX
       \<in> set (emitted world_empty (snd (snd (load context_500 live_movie False slot_2 world_empty))))"
proof -
  have 1: "fst (load context_500 live_movie False slot_2 world_empty) = ENOSTATE"
    by (simp add: load_defs world_defs slot_defs slot_2_defs world_empty_def)
  have 2: "slot_id slot_2 = 2" by (simp add: slot_2_def)
  show ?thesis
    using load_index_first[of world_empty context_500 live_movie False slot_2] 1
    by (simp add: slot_2_paths 2)
qed

end
